theory Spec2Isabelle
  imports Main "HOL-Library.Word"
begin

unbundle bit_operations_syntax

section \<open>Geometry (voxel/geom.go)\<close>

text \<open>
  Go's \<open>int\<close> is taken at its 64-bit width (amd64, arm64): a \<open>64 word\<close> read as two's
  complement. Comparisons are the signed ones (\<open><s\<close>, \<open>\<le>s\<close>); \<open>+\<close>, \<open>-\<close> and \<open>*\<close>
  wrap around as Go's do. \<open>uint8\<close> and \<open>uint32\<close> are \<open>8 word\<close> and \<open>32 word\<close> with the
  unsigned order.
\<close>

type_synonym go_int = "64 word"
type_synonym uint8 = "8 word"
type_synonym uint32 = "32 word"

record Point =
  X :: go_int
  Y :: go_int
  Z :: go_int

definition Pt :: "go_int \<Rightarrow> go_int \<Rightarrow> go_int \<Rightarrow> Point" where
  "Pt x y z = \<lparr>X = x, Y = y, Z = z\<rparr>"

definition ZP :: Point where
  "ZP = \<lparr>X = 0, Y = 0, Z = 0\<rparr>"

definition Point_Add :: "Point \<Rightarrow> Point \<Rightarrow> Point" where
  "Point_Add p q = \<lparr>X = X p + X q, Y = Y p + Y q, Z = Z p + Z q\<rparr>"

text \<open>The fields \<open>Min\<close> and \<open>Max\<close> of \<open>Box\<close> are \<open>MinP\<close> and \<open>MaxP\<close> here.\<close>

record Box =
  MinP :: Point
  MaxP :: Point

definition Point_In :: "Point \<Rightarrow> Box \<Rightarrow> bool" where
  "Point_In p b \<longleftrightarrow>
     X (MinP b) \<le>s X p \<and> X p <s X (MaxP b) \<and>
     Y (MinP b) \<le>s Y p \<and> Y p <s Y (MaxP b) \<and>
     Z (MinP b) \<le>s Z p \<and> Z p <s Z (MaxP b)"

definition ZB :: Box where
  "ZB = \<lparr>MinP = ZP, MaxP = ZP\<rparr>"

definition Box_Size :: "Box \<Rightarrow> Point" where
  "Box_Size b = \<lparr>X = X (MaxP b) - X (MinP b),
                 Y = Y (MaxP b) - Y (MinP b),
                 Z = Z (MaxP b) - Z (MinP b)\<rparr>"

text \<open>
  \<open>Box.Intersect\<close>: six clamps on the receiver's copy, one after the other, then the
  test for a crossed axis.
\<close>

definition Box_Intersect :: "Box \<Rightarrow> Box \<Rightarrow> Box" where
  "Box_Intersect b s =
    (let minx = (if X (MinP b) <s X (MinP s) then X (MinP s) else X (MinP b));
         miny = (if Y (MinP b) <s Y (MinP s) then Y (MinP s) else Y (MinP b));
         minz = (if Z (MinP b) <s Z (MinP s) then Z (MinP s) else Z (MinP b));
         maxx = (if X (MaxP s) <s X (MaxP b) then X (MaxP s) else X (MaxP b));
         maxy = (if Y (MaxP s) <s Y (MaxP b) then Y (MaxP s) else Y (MaxP b));
         maxz = (if Z (MaxP s) <s Z (MaxP b) then Z (MaxP s) else Z (MaxP b))
     in if maxx <s minx \<or> maxy <s miny \<or> maxz <s minz then ZB
        else \<lparr>MinP = \<lparr>X = minx, Y = miny, Z = minz\<rparr>,
              MaxP = \<lparr>X = maxx, Y = maxy, Z = maxz\<rparr>\<rparr>)"

definition Box_Empty :: "Box \<Rightarrow> bool" where
  "Box_Empty b \<longleftrightarrow>
     X (MaxP b) \<le>s X (MinP b) \<or> Y (MaxP b) \<le>s Y (MinP b) \<or> Z (MaxP b) \<le>s Z (MinP b)"

definition Box_Overlaps :: "Box \<Rightarrow> Box \<Rightarrow> bool" where
  "Box_Overlaps b s \<longleftrightarrow>
     \<not> Box_Empty b \<and> \<not> Box_Empty s \<and>
     X (MinP b) <s X (MaxP s) \<and> X (MinP s) <s X (MaxP b) \<and>
     Y (MinP b) <s Y (MaxP s) \<and> Y (MinP s) <s Y (MaxP b) \<and>
     Z (MinP b) <s Z (MaxP s) \<and> Z (MinP s) <s Z (MaxP b)"

definition Box_In :: "Box \<Rightarrow> Box \<Rightarrow> bool" where
  "Box_In b s =
     (if Box_Empty b then True
      else X (MinP s) \<le>s X (MinP b) \<and> X (MaxP b) \<le>s X (MaxP s) \<and>
           Y (MinP s) \<le>s Y (MinP b) \<and> Y (MaxP b) \<le>s Y (MaxP s) \<and>
           Z (MinP s) \<le>s Z (MinP b) \<and> Z (MaxP b) \<le>s Z (MaxP s))"

text \<open>\<open>Bx\<close>: each pair is swapped when it comes in descending order.\<close>

definition Bx :: "go_int \<Rightarrow> go_int \<Rightarrow> go_int \<Rightarrow> go_int \<Rightarrow> go_int \<Rightarrow> go_int \<Rightarrow> Box" where
  "Bx x0 y0 z0 x1 y1 z1 =
    (let (x0, x1) = (if x1 <s x0 then (x1, x0) else (x0, x1));
         (y0, y1) = (if y1 <s y0 then (y1, y0) else (y0, y1));
         (z0, z1) = (if z1 <s z0 then (z1, z0) else (z0, z1))
     in \<lparr>MinP = \<lparr>X = x0, Y = y0, Z = z0\<rparr>, MaxP = \<lparr>X = x1, Y = y1, Z = z1\<rparr>\<rparr>)"

section \<open>Images and the blit engine\<close>

text \<open>
  A Go panic (an index out of range, a negative length given to \<open>make\<close>) is the value
  \<open>None\<close> of the operations below.
\<close>

datatype RGBA = RGBA uint8 uint8 uint8 uint8

record Paletted =
  bounds :: Box
  Transformer :: "go_int \<Rightarrow> go_int \<Rightarrow> go_int \<Rightarrow> go_int \<times> go_int \<times> go_int"
  Palette :: "RGBA list"
  Data :: "uint8 list"

definition noTransform :: "go_int \<Rightarrow> go_int \<Rightarrow> go_int \<Rightarrow> go_int \<times> go_int \<times> go_int" where
  "noTransform x y z = (x, y, z)"

text \<open>A slice index of type \<open>int\<close> is in range when it is not negative and below the length.\<close>

definition in_range :: "go_int \<Rightarrow> 'a list \<Rightarrow> bool" where
  "in_range i xs \<longleftrightarrow> 0 \<le>s i \<and> unat i < length xs"

definition Paletted_Bounds :: "Paletted \<Rightarrow> Box" where
  "Paletted_Bounds p = bounds p"

definition Paletted_Offset :: "Paletted \<Rightarrow> go_int \<Rightarrow> go_int \<Rightarrow> go_int \<Rightarrow> go_int" where
  "Paletted_Offset p x y z =
     z * X (MaxP (bounds p)) * Y (MaxP (bounds p)) + y * X (MaxP (bounds p)) + x"

text \<open>\<open>make([]uint8, sz)\<close> panics on a negative \<open>sz\<close>; memory is not bounded here.\<close>

definition Paletted_SetBounds :: "Paletted \<Rightarrow> Box \<Rightarrow> Paletted option" where
  "Paletted_SetBounds p b =
     (case Transformer p (X (MaxP b)) (Y (MaxP b)) (Z (MaxP b)) of (x, y, z) \<Rightarrow>
        let sz = X (MaxP b) * Y (MaxP b) * Z (MaxP b)
        in if sz <s 0 then None
           else Some (p\<lparr>bounds := \<lparr>MinP = ZP, MaxP = Pt x y z\<rparr>,
                        Data := replicate (unat sz) 0\<rparr>))"

definition NewPaletted :: "RGBA list \<Rightarrow> Box \<Rightarrow> Paletted option" where
  "NewPaletted pal b =
     Paletted_SetBounds \<lparr>bounds = ZB, Transformer = noTransform, Palette = pal, Data = []\<rparr> b"

definition Paletted_SetPalette :: "Paletted \<Rightarrow> RGBA list \<Rightarrow> Paletted" where
  "Paletted_SetPalette p pal = p\<lparr>Palette := pal\<rparr>"

definition Paletted_Set :: "Paletted \<Rightarrow> go_int \<Rightarrow> go_int \<Rightarrow> go_int \<Rightarrow> uint8 \<Rightarrow> Paletted option" where
  "Paletted_Set p x y z index =
     (case Transformer p x y z of (x, y, z) \<Rightarrow>
        let off = Paletted_Offset p x y z
        in if in_range off (Data p) then Some (p\<lparr>Data := (Data p)[unat off := index]\<rparr>)
           else None)"

definition Paletted_Get :: "Paletted \<Rightarrow> go_int \<Rightarrow> go_int \<Rightarrow> go_int \<Rightarrow> uint8 option" where
  "Paletted_Get p x y z =
     (let off = Paletted_Offset p x y z
      in if in_range off (Data p) then Some (Data p ! unat off) else None)"

text \<open>
  The interface \<open>Image\<close> of package \<open>voxel\<close>. Its methods act on a program state \<open>'w\<close>
  that holds every image, so that source and destination may be the same object.
\<close>

record 'w Image =
  Image_Bounds :: "'w \<Rightarrow> Box"
  Image_Set :: "go_int \<Rightarrow> go_int \<Rightarrow> go_int \<Rightarrow> uint8 \<Rightarrow> 'w \<Rightarrow> 'w option"
  Image_Get :: "go_int \<Rightarrow> go_int \<Rightarrow> go_int \<Rightarrow> 'w \<Rightarrow> uint8 option"

text \<open>
  The three loops of \<open>Blit\<close> and \<open>BlitOp\<close> have one shape,
  \<^verbatim>\<open>for v, sv := lo, slo; v < hi; v++ { body; sv++ }\<close>,
  which is \<open>for_lockstep body hi lo slo\<close>.
\<close>

lemma sint_succ_below: "v <s hi \<Longrightarrow> sint (v + 1) = sint v + 1"
  for v hi :: go_int
proof -
  assume "v <s hi"
  then have "sint v < sint hi" by (simp add: word_sless_alt)
  moreover have "sint hi < 2 ^ (LENGTH(64) - 1)" by (rule sint_lt)
  moreover have "- (2 ^ (LENGTH(64) - 1)) \<le> sint v" by (rule sint_ge)
  ultimately have "signed_take_bit (LENGTH(64) - 1) (sint v + 1) = sint v + 1"
    by (intro signed_take_bit_int_eq_self) auto
  then show ?thesis by (simp add: sint_word_ariths)
qed

function for_lockstep ::
  "(go_int \<Rightarrow> go_int \<Rightarrow> 'w \<Rightarrow> 'w option) \<Rightarrow> go_int \<Rightarrow> go_int \<Rightarrow> go_int \<Rightarrow> 'w \<Rightarrow> 'w option" where
  "for_lockstep body hi v sv w =
     (if v <s hi
      then (case body v sv w of None \<Rightarrow> None
            | Some w' \<Rightarrow> for_lockstep body hi (v + 1) (sv + 1) w')
      else Some w)"
  by pat_completeness auto
termination
  by (relation "measure (\<lambda>(body, hi, v, sv, w). nat (sint hi - sint v))")
     (auto simp: sint_succ_below word_sless_alt)

declare for_lockstep.simps [simp del]

type_synonym 'w Op = "go_int \<Rightarrow> go_int \<Rightarrow> go_int \<Rightarrow> go_int \<Rightarrow> go_int \<Rightarrow> go_int \<Rightarrow> 'w \<Rightarrow> 'w option"

definition blit_loops :: "'w Op \<Rightarrow> Box \<Rightarrow> Point \<Rightarrow> 'w \<Rightarrow> 'w option" where
  "blit_loops op b smin w =
     for_lockstep (\<lambda>z sz.
       for_lockstep (\<lambda>y sy.
         for_lockstep (\<lambda>x sx. op x y z sx sy sz)
           (X (MaxP b)) (X (MinP b)) (X smin))
         (Y (MaxP b)) (Y (MinP b)) (Y smin))
       (Z (MaxP b)) (Z (MinP b)) (Z smin) w"

text \<open>The box that \<open>Blit\<close> and \<open>BlitOp\<close> walk, and the clipped source region.\<close>

definition clip_sr :: "Box \<Rightarrow> Box \<Rightarrow> Box" where
  "clip_sr src_bounds sr = Box_Intersect sr src_bounds"

definition clip_b :: "Box \<Rightarrow> Box \<Rightarrow> Point \<Rightarrow> Box \<Rightarrow> Box" where
  "clip_b dst_bounds src_bounds dp sr =
     (let sr = clip_sr src_bounds sr;
          dr = \<lparr>MinP = dp, MaxP = Point_Add (Box_Size sr) dp\<rparr>
      in Box_Intersect dst_bounds dr)"

definition BlitOp :: "'w Image \<Rightarrow> 'w Image \<Rightarrow> Point \<Rightarrow> Box \<Rightarrow> 'w Op \<Rightarrow> 'w \<Rightarrow> 'w option" where
  "BlitOp dst src dp sr op w =
     (let sr = Box_Intersect sr (Image_Bounds src w);
          dr = \<lparr>MinP = dp, MaxP = Point_Add (Box_Size sr) dp\<rparr>;
          b = Box_Intersect (Image_Bounds dst w) dr
      in blit_loops op b (MinP sr) w)"

definition copy_voxel :: "'w Image \<Rightarrow> 'w Image \<Rightarrow> 'w Op" where
  "copy_voxel dst src x y z sx sy sz w =
     (case Image_Get src sx sy sz w of None \<Rightarrow> None
      | Some index \<Rightarrow> Image_Set dst x y z index w)"

definition Blit :: "'w Image \<Rightarrow> 'w Image \<Rightarrow> Point \<Rightarrow> Box \<Rightarrow> 'w \<Rightarrow> 'w option" where
  "Blit dst src dp sr w =
     (let sr = Box_Intersect sr (Image_Bounds src w);
          dr = \<lparr>MinP = dp, MaxP = Point_Add (Box_Size sr) dp\<rparr>;
          b = Box_Intersect (Image_Bounds dst w) dr
      in blit_loops (copy_voxel dst src) b (MinP sr) w)"

subsection \<open>The walk of \<open>Blit\<close> as a list of cells\<close>

text \<open>
  Stated from the specification: the destination cells of the clipped box in ascending
  Z, then Y, then X order, each paired with the source cell at the same distance from
  the minimum of the clipped source region. \<open>extent lo hi\<close> is the number of coordinates
  from \<open>lo\<close> up to, not including, \<open>hi\<close>.
\<close>

definition extent :: "go_int \<Rightarrow> go_int \<Rightarrow> nat" where
  "extent lo hi = nat (sint hi - sint lo)"

type_synonym cell = "go_int \<times> go_int \<times> go_int"

definition blit_cells :: "Box \<Rightarrow> Point \<Rightarrow> (cell \<times> cell) list" where
  "blit_cells b smin =
     map (\<lambda>(k, j, i).
            ((X (MinP b) + of_nat i, Y (MinP b) + of_nat j, Z (MinP b) + of_nat k),
             (X smin + of_nat i, Y smin + of_nat j, Z smin + of_nat k)))
         (List.product [0..<extent (Z (MinP b)) (Z (MaxP b))]
           (List.product [0..<extent (Y (MinP b)) (Y (MaxP b))]
                         [0..<extent (X (MinP b)) (X (MaxP b))]))"

text \<open>Running a per-cell action over a list of cells; a panic ends the run.\<close>

primrec run_cells :: "('c \<Rightarrow> 'w \<Rightarrow> 'w option) \<Rightarrow> 'c list \<Rightarrow> 'w \<Rightarrow> 'w option" where
  "run_cells f [] w = Some w"
| "run_cells f (c # cs) w =
     (case f c w of None \<Rightarrow> None | Some w' \<Rightarrow> run_cells f cs w')"

definition at_cells :: "'w Op \<Rightarrow> cell \<times> cell \<Rightarrow> 'w \<Rightarrow> 'w option" where
  "at_cells op c w =
     (case c of ((x, y, z), (sx, sy, sz)) \<Rightarrow> op x y z sx sy sz w)"

text \<open>
  Two test doubles. \<open>recorder\<close> is a destination whose state is the list of the \<open>Set\<close>
  calls made on it; \<open>fixed_src\<close> is a source that holds \<open>g x y z\<close> at every cell and
  ignores writes.
\<close>

definition recorder :: "Box \<Rightarrow> (cell \<times> uint8) list Image" where
  "recorder bnd =
     \<lparr>Image_Bounds = (\<lambda>log. bnd),
      Image_Set = (\<lambda>x y z index log. Some (log @ [((x, y, z), index)])),
      Image_Get = (\<lambda>x y z log. Some 0)\<rparr>"

definition fixed_src :: "Box \<Rightarrow> (go_int \<Rightarrow> go_int \<Rightarrow> go_int \<Rightarrow> uint8) \<Rightarrow> 'w Image" where
  "fixed_src bnd g =
     \<lparr>Image_Bounds = (\<lambda>w. bnd),
      Image_Set = (\<lambda>x y z index w. Some w),
      Image_Get = (\<lambda>x y z w. Some (g x y z))\<rparr>"

definition read_at :: "(go_int \<Rightarrow> go_int \<Rightarrow> go_int \<Rightarrow> uint8) \<Rightarrow> cell \<times> cell \<Rightarrow> cell \<times> uint8" where
  "read_at g c = (case c of (d, (sx, sy, sz)) \<Rightarrow> (d, g sx sy sz))"

text \<open>
  Two \<open>Paletted\<close> images as destination and source of a blit: the state is the pair
  (destination, source) of two distinct objects.
\<close>

definition Paletted_dst :: "(Paletted \<times> Paletted) Image" where
  "Paletted_dst =
     \<lparr>Image_Bounds = (\<lambda>(d, s). Paletted_Bounds d),
      Image_Set = (\<lambda>x y z index (d, s).
         case Paletted_Set d x y z index of None \<Rightarrow> None | Some d' \<Rightarrow> Some (d', s)),
      Image_Get = (\<lambda>x y z (d, s). Paletted_Get d x y z)\<rparr>"

definition Paletted_src :: "(Paletted \<times> Paletted) Image" where
  "Paletted_src =
     \<lparr>Image_Bounds = (\<lambda>(d, s). Paletted_Bounds s),
      Image_Set = (\<lambda>x y z index (d, s).
         case Paletted_Set s x y z index of None \<Rightarrow> None | Some s' \<Rightarrow> Some (d, s')),
      Image_Get = (\<lambda>x y z (d, s). Paletted_Get s x y z)\<rparr>"

text \<open>An image whose \<open>Set\<close> and \<open>Get\<close> panic whenever they are called.\<close>

definition panicking :: "Box \<Rightarrow> 'w Image" where
  "panicking bnd =
     \<lparr>Image_Bounds = (\<lambda>w. bnd),
      Image_Set = (\<lambda>x y z index w. None),
      Image_Get = (\<lambda>x y z w. None)\<rparr>"


text \<open>Two 2 x 2 x 2 images used as concrete inputs.\<close>

definition demo_dst :: Paletted where
  "demo_dst = \<lparr>bounds = Bx 0 0 0 2 2 2, Transformer = noTransform, Palette = [],
               Data = [0, 0, 0, 0, 0, 0, 0, 0]\<rparr>"

definition demo_src :: Paletted where
  "demo_src = \<lparr>bounds = Bx 0 0 0 2 2 2, Transformer = noTransform, Palette = [],
               Data = [1, 2, 3, 4, 5, 6, 7, 8]\<rparr>"

subsection \<open>Reading through the transformer\<close>

text \<open>
  Stated from the specification, for comparison with \<open>Paletted_Get\<close>: a read that applies
  the image's transformer to the coordinates before the offset is taken.
\<close>

definition Get_transformed :: "Paletted \<Rightarrow> go_int \<Rightarrow> go_int \<Rightarrow> go_int \<Rightarrow> uint8 option" where
  "Get_transformed p x y z =
     (case Transformer p x y z of (x, y, z) \<Rightarrow>
        let off = Paletted_Offset p x y z
        in if in_range off (Data p) then Some (Data p ! unat off) else None)"

text \<open>The flat offset of the cell that the transformer maps \<open>(x, y, z)\<close> to.\<close>

definition transformed_Offset :: "Paletted \<Rightarrow> go_int \<Rightarrow> go_int \<Rightarrow> go_int \<Rightarrow> go_int" where
  "transformed_Offset p x y z =
     (case Transformer p x y z of (x, y, z) \<Rightarrow> Paletted_Offset p x y z)"

text \<open>A 2 x 1 x 1 image whose transformer mirrors the X axis.\<close>

definition mirror_img :: Paletted where
  "mirror_img = \<lparr>bounds = Bx 0 0 0 2 1 1, Transformer = (\<lambda>x y z. (1 - x, y, z)),
                 Palette = [], Data = [10, 20]\<rparr>"

section \<open>The chunk decoder (voxel/vox/vox.go)\<close>

subsection \<open>Errors, the reader and binary reads\<close>

text \<open>
  An \<open>Error\<close> is the struct of a message and an optional inner error. The inner errors
  that occur are those of a read on a stream that has ended.
\<close>

datatype io_error = EOF | ErrUnexpectedEOF

datatype Error = Error string "io_error option"

definition ErrInvalidFile :: Error where
  "ErrInvalidFile = Error ''invalid file'' None"

definition ErrInvalidVersion :: Error where
  "ErrInvalidVersion = Error ''invalid version'' None"

definition ErrInvalidChunk :: Error where
  "ErrInvalidChunk = Error ''invalid chunk'' None"

definition ErrInvalidMainChunk :: Error where
  "ErrInvalidMainChunk = Error ''invalid main chunk'' None"

text \<open>The method \<open>with\<close> of \<open>Error\<close>.\<close>

fun Error_with :: "Error \<Rightarrow> io_error \<Rightarrow> Error" where
  "Error_with (Error e i) inner = Error e (Some inner)"

definition voxMagic :: string where "voxMagic = ''VOX ''"
definition voxVersion :: uint8 where "voxVersion = 150"
definition mainChunkID :: string where "mainChunkID = ''MAIN''"
definition sizeShunkID :: string where "sizeShunkID = ''SIZE''"
definition voxelChunkID :: string where "voxelChunkID = ''XYZI''"
definition paletteChunkID :: string where "paletteChunkID = ''RGBA''"

text \<open>
  The input is a finite byte stream held in memory; a \<open>Reader\<close> is the part of it not
  yet read. The two reads the decoder uses belong to Go's standard library and are
  modelled from its documentation:
  \<^item> \<open>binary.Read\<close> of a fixed-size value of \<open>n\<close> bytes reads exactly \<open>n\<close> bytes through
    \<open>io.ReadFull\<close>; it fails with \<open>EOF\<close> when no byte is left and with
    \<open>ErrUnexpectedEOF\<close> when fewer than \<open>n\<close> are;
  \<^item> \<open>reader.Read(buf)\<close>, as \<open>bytes.Reader\<close> does it: \<open>EOF\<close> when no byte is left,
    otherwise as many bytes as are there, up to the length of \<open>buf\<close>, with no error.
\<close>

type_synonym Reader = "uint8 list"

definition binary_Read :: "nat \<Rightarrow> Reader \<Rightarrow> io_error + (uint8 list \<times> Reader)" where
  "binary_Read n r =
     (if n \<le> length r then Inr (take n r, drop n r)
      else if r = [] then Inl EOF else Inl ErrUnexpectedEOF)"

definition Reader_Read :: "nat \<Rightarrow> Reader \<Rightarrow> io_error + Reader" where
  "Reader_Read n r = (if r = [] then Inl EOF else Inr (drop n r))"

text \<open>\<open>binary.LittleEndian\<close> on four bytes, and the conversion \<open>string(bytes)\<close>.\<close>

definition le_uint32 :: "uint8 list \<Rightarrow> uint32" where
  "le_uint32 bs =
     ucast (bs ! 0) OR push_bit 8 (ucast (bs ! 1)) OR push_bit 16 (ucast (bs ! 2))
       OR push_bit 24 (ucast (bs ! 3))"

definition go_string :: "uint8 list \<Rightarrow> string" where
  "go_string bs = map (\<lambda>b. char_of (unat b)) bs"

record chunkHeader =
  ChunkId :: "uint8 list"
  DataSize :: uint32
  ChildrenSize :: uint32

definition read_chunkHeader :: "Reader \<Rightarrow> io_error + (chunkHeader \<times> Reader)" where
  "read_chunkHeader r =
     (case binary_Read 12 r of
        Inl e \<Rightarrow> Inl e
      | Inr (bs, r') \<Rightarrow>
          Inr (\<lparr>ChunkId = take 4 bs,
                DataSize = le_uint32 (take 4 (drop 4 bs)),
                ChildrenSize = le_uint32 (drop 8 bs)\<rparr>, r'))"

subsection \<open>The sink\<close>

text \<open>
  The interface \<open>Image\<close> of package \<open>vox\<close>: three methods on a sink of state \<open>'s\<close>;
  \<open>None\<close> is a panic of the method.
\<close>

record 's vox_Image =
  vox_SetBounds :: "Box \<Rightarrow> 's \<Rightarrow> 's option"
  vox_SetPalette :: "RGBA list \<Rightarrow> 's \<Rightarrow> 's option"
  vox_Set :: "go_int \<Rightarrow> go_int \<Rightarrow> go_int \<Rightarrow> uint8 \<Rightarrow> 's \<Rightarrow> 's option"

definition Paletted_sink :: "Paletted vox_Image" where
  "Paletted_sink =
     \<lparr>vox_SetBounds = (\<lambda>b p. Paletted_SetBounds p b),
      vox_SetPalette = (\<lambda>pal p. Some (Paletted_SetPalette p pal)),
      vox_Set = (\<lambda>x y z index p. Paletted_Set p x y z index)\<rparr>"

text \<open>A sink that only records the calls made on it, in order.\<close>

datatype call =
  Call_SetBounds Box
  | Call_SetPalette "RGBA list"
  | Call_Set go_int go_int go_int uint8

definition call_log :: "call list vox_Image" where
  "call_log =
     \<lparr>vox_SetBounds = (\<lambda>b log. Some (log @ [Call_SetBounds b])),
      vox_SetPalette = (\<lambda>pal log. Some (log @ [Call_SetPalette pal])),
      vox_Set = (\<lambda>x y z index log. Some (log @ [Call_Set x y z index]))\<rparr>"

text \<open>
  How a call of \<open>Decode\<close> ends: it returns \<open>nil\<close> or an error, leaving the sink in some
  state, or a method of the sink panics.
\<close>

datatype 's outcome = Return "Error option" 's | Panicked

subsection \<open>The default palette\<close>

definition defaultPalette :: "RGBA list" where
  "defaultPalette =
    [RGBA 255 255 255 255, RGBA 255 255 204 255, RGBA 255 255 153 255, RGBA 255 255 102 255,
     RGBA 255 255 51 255, RGBA 255 255 0 255, RGBA 255 204 255 255, RGBA 255 204 204 255,
     RGBA 255 204 153 255, RGBA 255 204 102 255, RGBA 255 204 51 255, RGBA 255 204 0 255,
     RGBA 255 153 255 255, RGBA 255 153 204 255, RGBA 255 153 153 255, RGBA 255 153 102 255,
     RGBA 255 153 51 255, RGBA 255 153 0 255, RGBA 255 102 255 255, RGBA 255 102 204 255,
     RGBA 255 102 153 255, RGBA 255 102 102 255, RGBA 255 102 51 255, RGBA 255 102 0 255,
     RGBA 255 51 255 255, RGBA 255 51 204 255, RGBA 255 51 153 255, RGBA 255 51 102 255,
     RGBA 255 51 51 255, RGBA 255 51 0 255, RGBA 255 0 255 255, RGBA 255 0 204 255,
     RGBA 255 0 153 255, RGBA 255 0 102 255, RGBA 255 0 51 255, RGBA 255 0 0 255,
     RGBA 204 255 255 255, RGBA 204 255 204 255, RGBA 204 255 153 255, RGBA 204 255 102 255,
     RGBA 204 255 51 255, RGBA 204 255 0 255, RGBA 204 204 255 255, RGBA 204 204 204 255,
     RGBA 204 204 153 255, RGBA 204 204 102 255, RGBA 204 204 51 255, RGBA 204 204 0 255,
     RGBA 204 153 255 255, RGBA 204 153 204 255, RGBA 204 153 153 255, RGBA 204 153 102 255,
     RGBA 204 153 51 255, RGBA 204 153 0 255, RGBA 204 102 255 255, RGBA 204 102 204 255,
     RGBA 204 102 153 255, RGBA 204 102 102 255, RGBA 204 102 51 255, RGBA 204 102 0 255,
     RGBA 204 51 255 255, RGBA 204 51 204 255, RGBA 204 51 153 255, RGBA 204 51 102 255,
     RGBA 204 51 51 255, RGBA 204 51 0 255, RGBA 204 0 255 255, RGBA 204 0 204 255,
     RGBA 204 0 153 255, RGBA 204 0 102 255, RGBA 204 0 51 255, RGBA 204 0 0 255,
     RGBA 153 255 255 255, RGBA 153 255 204 255, RGBA 153 255 153 255, RGBA 153 255 102 255,
     RGBA 153 255 51 255, RGBA 153 255 0 255, RGBA 153 204 255 255, RGBA 153 204 204 255,
     RGBA 153 204 153 255, RGBA 153 204 102 255, RGBA 153 204 51 255, RGBA 153 204 0 255,
     RGBA 153 153 255 255, RGBA 153 153 204 255, RGBA 153 153 153 255, RGBA 153 153 102 255,
     RGBA 153 153 51 255, RGBA 153 153 0 255, RGBA 153 102 255 255, RGBA 153 102 204 255,
     RGBA 153 102 153 255, RGBA 153 102 102 255, RGBA 153 102 51 255, RGBA 153 102 0 255,
     RGBA 153 51 255 255, RGBA 153 51 204 255, RGBA 153 51 153 255, RGBA 153 51 102 255,
     RGBA 153 51 51 255, RGBA 153 51 0 255, RGBA 153 0 255 255, RGBA 153 0 204 255,
     RGBA 153 0 153 255, RGBA 153 0 102 255, RGBA 153 0 51 255, RGBA 153 0 0 255,
     RGBA 102 255 255 255, RGBA 102 255 204 255, RGBA 102 255 153 255, RGBA 102 255 102 255,
     RGBA 102 255 51 255, RGBA 102 255 0 255, RGBA 102 204 255 255, RGBA 102 204 204 255,
     RGBA 102 204 153 255, RGBA 102 204 102 255, RGBA 102 204 51 255, RGBA 102 204 0 255,
     RGBA 102 153 255 255, RGBA 102 153 204 255, RGBA 102 153 153 255, RGBA 102 153 102 255,
     RGBA 102 153 51 255, RGBA 102 153 0 255, RGBA 102 102 255 255, RGBA 102 102 204 255,
     RGBA 102 102 153 255, RGBA 102 102 102 255, RGBA 102 102 51 255, RGBA 102 102 0 255,
     RGBA 102 51 255 255, RGBA 102 51 204 255, RGBA 102 51 153 255, RGBA 102 51 102 255,
     RGBA 102 51 51 255, RGBA 102 51 0 255, RGBA 102 0 255 255, RGBA 102 0 204 255,
     RGBA 102 0 153 255, RGBA 102 0 102 255, RGBA 102 0 51 255, RGBA 102 0 0 255,
     RGBA 51 255 255 255, RGBA 51 255 204 255, RGBA 51 255 153 255, RGBA 51 255 102 255,
     RGBA 51 255 51 255, RGBA 51 255 0 255, RGBA 51 204 255 255, RGBA 51 204 204 255,
     RGBA 51 204 153 255, RGBA 51 204 102 255, RGBA 51 204 51 255, RGBA 51 204 0 255,
     RGBA 51 153 255 255, RGBA 51 153 204 255, RGBA 51 153 153 255, RGBA 51 153 102 255,
     RGBA 51 153 51 255, RGBA 51 153 0 255, RGBA 51 102 255 255, RGBA 51 102 204 255,
     RGBA 51 102 153 255, RGBA 51 102 102 255, RGBA 51 102 51 255, RGBA 51 102 0 255,
     RGBA 51 51 255 255, RGBA 51 51 204 255, RGBA 51 51 153 255, RGBA 51 51 102 255,
     RGBA 51 51 51 255, RGBA 51 51 0 255, RGBA 51 0 255 255, RGBA 51 0 204 255,
     RGBA 51 0 153 255, RGBA 51 0 102 255, RGBA 51 0 51 255, RGBA 51 0 0 255,
     RGBA 0 255 255 255, RGBA 0 255 204 255, RGBA 0 255 153 255, RGBA 0 255 102 255,
     RGBA 0 255 51 255, RGBA 0 255 0 255, RGBA 0 204 255 255, RGBA 0 204 204 255,
     RGBA 0 204 153 255, RGBA 0 204 102 255, RGBA 0 204 51 255, RGBA 0 204 0 255,
     RGBA 0 153 255 255, RGBA 0 153 204 255, RGBA 0 153 153 255, RGBA 0 153 102 255,
     RGBA 0 153 51 255, RGBA 0 153 0 255, RGBA 0 102 255 255, RGBA 0 102 204 255,
     RGBA 0 102 153 255, RGBA 0 102 102 255, RGBA 0 102 51 255, RGBA 0 102 0 255,
     RGBA 0 51 255 255, RGBA 0 51 204 255, RGBA 0 51 153 255, RGBA 0 51 102 255,
     RGBA 0 51 51 255, RGBA 0 51 0 255, RGBA 0 0 255 255, RGBA 0 0 204 255,
     RGBA 0 0 153 255, RGBA 0 0 102 255, RGBA 0 0 51 255, RGBA 238 0 0 255,
     RGBA 221 0 0 255, RGBA 187 0 0 255, RGBA 170 0 0 255, RGBA 136 0 0 255,
     RGBA 119 0 0 255, RGBA 85 0 0 255, RGBA 68 0 0 255, RGBA 34 0 0 255,
     RGBA 17 0 0 255, RGBA 0 238 0 255, RGBA 0 221 0 255, RGBA 0 187 0 255,
     RGBA 0 170 0 255, RGBA 0 136 0 255, RGBA 0 119 0 255, RGBA 0 85 0 255,
     RGBA 0 68 0 255, RGBA 0 34 0 255, RGBA 0 17 0 255, RGBA 0 0 238 255,
     RGBA 0 0 221 255, RGBA 0 0 187 255, RGBA 0 0 170 255, RGBA 0 0 136 255,
     RGBA 0 0 119 255, RGBA 0 0 85 255, RGBA 0 0 68 255, RGBA 0 0 34 255,
     RGBA 0 0 17 255, RGBA 238 238 238 255, RGBA 221 221 221 255, RGBA 187 187 187 255,
     RGBA 170 170 170 255, RGBA 136 136 136 255, RGBA 119 119 119 255, RGBA 85 85 85 255,
     RGBA 68 68 68 255, RGBA 34 34 34 255, RGBA 17 17 17 255, RGBA 0 0 0 255]"

subsection \<open>The chunk bodies\<close>

text \<open>The loop \<open>for i := range palette\<close> over the 256 entries, four bytes each.\<close>

primrec read_palette :: "nat \<Rightarrow> Reader \<Rightarrow> io_error + (RGBA list \<times> Reader)" where
  "read_palette 0 r = Inr ([], r)"
| "read_palette (Suc n) r =
     (case binary_Read 4 r of
        Inl e \<Rightarrow> Inl e
      | Inr (c, r') \<Rightarrow>
          (case read_palette n r' of
             Inl e \<Rightarrow> Inl e
           | Inr (palette, r'') \<Rightarrow> Inr (RGBA (c ! 0) (c ! 1) (c ! 2) (c ! 3) # palette, r'')))"

lemma unat_succ_below: "i < n \<Longrightarrow> unat (i + 1) = unat i + 1"
  for i n :: uint32
proof -
  assume "i < n"
  then have "unat i < unat n" by (simp add: word_less_nat_alt)
  moreover have "unat n < 2 ^ LENGTH(32)" by (rule unsigned_less)
  ultimately have "unat i + 1 < 2 ^ LENGTH(32)" by linarith
  then show ?thesis by (simp add: unat_word_ariths)
qed

text \<open>The loop \<open>for i := uint32(0); i < numVoxels; i++\<close> of the \<open>XYZI\<close> chunk.\<close>

function read_voxels ::
  "'s vox_Image \<Rightarrow> uint32 \<Rightarrow> uint32 \<Rightarrow> Reader \<Rightarrow> 's \<Rightarrow> 's outcome + (Reader \<times> 's)" where
  "read_voxels img numVoxels i r s =
     (if i < numVoxels
      then (case binary_Read 4 r of
              Inl e \<Rightarrow> Inl (Return (Some (Error_with ErrInvalidChunk e)) s)
            | Inr (voxel, r') \<Rightarrow>
                (case vox_Set img (ucast (voxel ! 0)) (ucast (voxel ! 1)) (ucast (voxel ! 2))
                        (voxel ! 3) s of
                   None \<Rightarrow> Inl Panicked
                 | Some s' \<Rightarrow> read_voxels img numVoxels (i + 1) r' s'))
      else Inr (r, s))"
  by pat_completeness auto
termination
  by (relation "measure (\<lambda>(img, numVoxels, i, r, s). unat numVoxels - unat i)")
     (auto simp: unat_succ_below word_less_nat_alt)

declare read_voxels.simps [simp del]

subsection \<open>The loop over the children and \<open>Decode\<close>\<close>

text \<open>The variables of the loop: the byte count, the palette flag, the reader, the sink.\<close>

record 's decoder =
  numBytes :: uint32
  hasPalette :: bool
  reader :: Reader
  sink :: 's

text \<open>One pass through the body of the loop: a child header and the chunk's body.\<close>

definition child_chunk :: "'s vox_Image \<Rightarrow> 's decoder \<Rightarrow> 's outcome + 's decoder" where
  "child_chunk img st =
     (case read_chunkHeader (reader st) of
        Inl e \<Rightarrow> Inl (Return (Some (Error_with ErrInvalidFile e)) (sink st))
      | Inr (header, r) \<Rightarrow>
          let n = numBytes st + 12 in
          if go_string (ChunkId header) = sizeShunkID then
            (case binary_Read 12 r of
               Inl e \<Rightarrow> Inl (Return (Some (Error_with ErrInvalidChunk e)) (sink st))
             | Inr (extents, r') \<Rightarrow>
                 (case vox_SetBounds img
                         (Bx 0 0 0 (ucast (le_uint32 (take 4 extents)))
                                   (ucast (le_uint32 (take 4 (drop 4 extents))))
                                   (ucast (le_uint32 (drop 8 extents)))) (sink st) of
                    None \<Rightarrow> Inl Panicked
                  | Some s' \<Rightarrow> Inr (st\<lparr>numBytes := n + 12, reader := r', sink := s'\<rparr>)))
          else if go_string (ChunkId header) = paletteChunkID then
            (case read_palette 256 r of
               Inl e \<Rightarrow> Inl (Return (Some (Error_with ErrInvalidChunk e)) (sink st))
             | Inr (palette, r') \<Rightarrow>
                 (case vox_SetPalette img palette (sink st) of
                    None \<Rightarrow> Inl Panicked
                  | Some s' \<Rightarrow>
                      Inr (st\<lparr>numBytes := n + 16 * 256, hasPalette := True,
                              reader := r', sink := s'\<rparr>)))
          else if go_string (ChunkId header) = voxelChunkID then
            (case binary_Read 4 r of
               Inl e \<Rightarrow> Inl (Return (Some (Error_with ErrInvalidChunk e)) (sink st))
             | Inr (count, r') \<Rightarrow>
                 let numVoxels = le_uint32 count in
                 (case read_voxels img numVoxels 0 r' (sink st) of
                    Inl out \<Rightarrow> Inl out
                  | Inr (r'', s') \<Rightarrow>
                      Inr (st\<lparr>numBytes := n + 4 + 4 * numVoxels, reader := r'', sink := s'\<rparr>)))
          else
            let sz = DataSize header + ChildrenSize header in
            (case Reader_Read (unat sz) r of
               Inl e \<Rightarrow> Inl (Return (Some (Error_with ErrInvalidFile e)) (sink st))
             | Inr r' \<Rightarrow> Inr (st\<lparr>numBytes := n + sz, reader := r'\<rparr>)))"

text \<open>
  The loop \<open>for numBytes < childrenSize\<close>. Whether it ends is not assumed: \<open>None\<close> is a
  loop that runs forever.
\<close>

partial_function (option) children ::
  "'s vox_Image \<Rightarrow> uint32 \<Rightarrow> 's decoder \<Rightarrow> ('s outcome + 's decoder) option" where
  "children img childrenSize st =
     (if numBytes st < childrenSize
      then (case child_chunk img st of
              Inl out \<Rightarrow> Some (Inl out)
            | Inr st' \<Rightarrow> children img childrenSize st')
      else Some (Inr st))"

text \<open>
  \<open>Decode\<close> in two parts: up to the end of the loop (\<open>decode_chunks\<close>, which gives the
  loop's variables when the loop is left), and what follows the loop (\<open>finish\<close>): the
  default palette when no \<open>RGBA\<close> chunk was seen, and the return of \<open>nil\<close>.
\<close>

definition decode_chunks ::
  "Reader \<Rightarrow> 's vox_Image \<Rightarrow> 's \<Rightarrow> ('s outcome + 's decoder) option" where
  "decode_chunks r img s =
     (case binary_Read 8 r of
        Inl e \<Rightarrow> Some (Inl (Return (Some (Error_with ErrInvalidFile e)) s))
      | Inr (fileHeader, r1) \<Rightarrow>
          if go_string (take 4 fileHeader) \<noteq> voxMagic
          then Some (Inl (Return (Some ErrInvalidFile) s))
          else if fileHeader ! 4 \<noteq> voxVersion
          then Some (Inl (Return (Some ErrInvalidVersion) s))
          else
            (case read_chunkHeader r1 of
               Inl e \<Rightarrow> Some (Inl (Return (Some (Error_with ErrInvalidMainChunk e)) s))
             | Inr (header, r2) \<Rightarrow>
                 if go_string (ChunkId header) \<noteq> mainChunkID
                 then Some (Inl (Return (Some ErrInvalidMainChunk) s))
                 else children img (ChildrenSize header)
                        \<lparr>numBytes = 0, hasPalette = False, reader = r2, sink = s\<rparr>))"

definition finish :: "'s vox_Image \<Rightarrow> 's decoder \<Rightarrow> 's outcome" where
  "finish img st =
     (if \<not> hasPalette st
      then (case vox_SetPalette img defaultPalette (sink st) of
              None \<Rightarrow> Panicked
            | Some s' \<Rightarrow> Return None s')
      else Return None (sink st))"

definition Decode :: "Reader \<Rightarrow> 's vox_Image \<Rightarrow> 's \<Rightarrow> 's outcome option" where
  "Decode r img s =
     (case decode_chunks r img s of
        None \<Rightarrow> None
      | Some (Inl out) \<Rightarrow> Some out
      | Some (Inr st) \<Rightarrow> Some (finish img st))"

subsection \<open>Building streams\<close>

text \<open>
  The repository has no encoder. The functions below write the byte layout that the
  decoder reads, to state properties of streams built from known chunks.
\<close>

definition le32 :: "uint32 \<Rightarrow> uint8 list" where
  "le32 w = [ucast w, ucast (drop_bit 8 w), ucast (drop_bit 16 w), ucast (drop_bit 24 w)]"

definition go_bytes :: "string \<Rightarrow> uint8 list" where
  "go_bytes str = map (\<lambda>c. of_nat (of_char c)) str"

definition file_header :: "uint8 list" where
  "file_header = go_bytes ''VOX '' @ [150, 0, 0, 0]"

definition chunk_header :: "string \<Rightarrow> uint32 \<Rightarrow> uint32 \<Rightarrow> uint8 list" where
  "chunk_header tag dataSize childrenSize = go_bytes tag @ le32 dataSize @ le32 childrenSize"

definition size_chunk :: "uint32 \<Rightarrow> uint32 \<Rightarrow> uint32 \<Rightarrow> uint8 list" where
  "size_chunk x y z = chunk_header ''SIZE'' 12 0 @ le32 x @ le32 y @ le32 z"

fun rgba_bytes :: "RGBA \<Rightarrow> uint8 list" where
  "rgba_bytes (RGBA r g b a) = [r, g, b, a]"

definition rgba_chunk :: "RGBA list \<Rightarrow> uint8 list" where
  "rgba_chunk table = chunk_header ''RGBA'' 1024 0 @ concat (map rgba_bytes table)"

fun voxel_bytes :: "uint8 \<times> uint8 \<times> uint8 \<times> uint8 \<Rightarrow> uint8 list" where
  "voxel_bytes (x, y, z, i) = [x, y, z, i]"

text \<open>The call of \<open>Set\<close> that the decoder makes for one voxel record.\<close>

fun store_voxel :: "'s vox_Image \<Rightarrow> uint8 \<times> uint8 \<times> uint8 \<times> uint8 \<Rightarrow> 's \<Rightarrow> 's option" where
  "store_voxel img (x, y, z, i) s = vox_Set img (ucast x) (ucast y) (ucast z) i s"

definition xyzi_chunk :: "(uint8 \<times> uint8 \<times> uint8 \<times> uint8) list \<Rightarrow> uint8 list" where
  "xyzi_chunk voxels =
     chunk_header ''XYZI'' (of_nat (4 + 4 * length voxels)) 0 @ le32 (of_nat (length voxels)) @
     concat (map voxel_bytes voxels)"

definition vox_stream :: "uint32 \<Rightarrow> uint8 list list \<Rightarrow> uint8 list" where
  "vox_stream childrenSize chunks =
     file_header @ chunk_header ''MAIN'' 0 childrenSize @ concat chunks"

text \<open>
  The streams of the round trip: a \<open>SIZE\<close> chunk with extents 2, 2, 2, an \<open>XYZI\<close> chunk
  with the voxels (0, 0, 0, 5) and (1, 1, 1, 9) and an \<open>RGBA\<close> chunk with a given table,
  in a given order; \<open>childrenSize\<close> is their total size, 24 + 24 + 1036.
\<close>

definition two_voxels :: "uint8 list" where
  "two_voxels = xyzi_chunk [(0, 0, 0, 5), (1, 1, 1, 9)]"

definition stream_SIZE_XYZI_RGBA :: "RGBA list \<Rightarrow> uint8 list" where
  "stream_SIZE_XYZI_RGBA table = vox_stream 1084 [size_chunk 2 2 2, two_voxels, rgba_chunk table]"

definition stream_XYZI_SIZE_RGBA :: "RGBA list \<Rightarrow> uint8 list" where
  "stream_XYZI_SIZE_RGBA table = vox_stream 1084 [two_voxels, size_chunk 2 2 2, rgba_chunk table]"

definition stream_RGBA_SIZE_XYZI :: "RGBA list \<Rightarrow> uint8 list" where
  "stream_RGBA_SIZE_XYZI table = vox_stream 1084 [rgba_chunk table, size_chunk 2 2 2, two_voxels]"

definition stream_SIZE_RGBA_XYZI :: "RGBA list \<Rightarrow> uint8 list" where
  "stream_SIZE_RGBA_XYZI table = vox_stream 1084 [size_chunk 2 2 2, rgba_chunk table, two_voxels]"


text \<open>A table of 256 colours, and the image that \<open>NewPaletted\<close> makes of the box \<open>ZB\<close>.\<close>

definition some_table :: "RGBA list" where
  "some_table = map (\<lambda>n. RGBA (of_nat n) (of_nat (2 * n)) (of_nat (3 * n)) 255) [0..<256]"

definition empty_img :: Paletted where
  "empty_img = \<lparr>bounds = \<lparr>MinP = ZP, MaxP = Pt 0 0 0\<rparr>, Transformer = noTransform,
                Palette = [], Data = []\<rparr>"

text \<open>A sink whose three methods panic whenever they are called.\<close>

definition panicking_sink :: "unit vox_Image" where
  "panicking_sink =
     \<lparr>vox_SetBounds = (\<lambda>b s. None),
      vox_SetPalette = (\<lambda>pal s. None),
      vox_Set = (\<lambda>x y z index s. None)\<rparr>"


text \<open>
  A stream whose magic tag is wrong in its last byte, and a stream cut after its only
  chunk although \<open>childrenSize\<close> announces more.
\<close>

definition bad_magic_stream :: "uint8 list" where
  "bad_magic_stream =
     go_bytes ''VOX!'' @ [150, 0, 0, 0] @ chunk_header ''MAIN'' 0 24 @ size_chunk 2 2 2"

definition cut_stream :: "uint8 list" where
  "cut_stream = vox_stream 1000 [size_chunk 2 2 2]"


section \<open>Lemmas on the blit loops\<close>

subsection \<open>The loops walk the cell list\<close>

lemma run_cells_map: "run_cells f (map g xs) w = run_cells (\<lambda>x. f (g x)) xs w"
  by (induction xs arbitrary: w) (auto split: option.splits)

lemma run_cells_append:
  "run_cells f (xs @ ys) w =
     (case run_cells f xs w of None \<Rightarrow> None | Some w' \<Rightarrow> run_cells f ys w')"
  by (induction xs arbitrary: w) (auto split: option.splits)

lemma run_cells_product:
  "run_cells f (List.product xs ys) w =
     run_cells (\<lambda>x. run_cells (\<lambda>y. f (x, y)) ys) xs w"
  by (induction xs arbitrary: w) (auto simp: run_cells_append run_cells_map split: option.splits)

lemma extent_0: "extent v hi = 0 \<Longrightarrow> \<not> v <s hi"
  by (simp add: extent_def word_sless_alt)

lemma extent_Suc: "extent v hi = Suc n \<Longrightarrow> v <s hi \<and> extent (v + 1) hi = n"
proof -
  assume a: "extent v hi = Suc n"
  then have lt: "v <s hi" by (simp add: extent_def word_sless_alt)
  from a sint_succ_below [OF lt] show ?thesis
    using lt by (simp add: extent_def)
qed

lemma for_lockstep_unroll:
  "for_lockstep body hi v sv w =
     run_cells (\<lambda>i. body (v + of_nat i) (sv + of_nat i)) [0..<extent v hi] w"
proof (induction "extent v hi" arbitrary: v sv w)
  case 0
  then show ?case using extent_0 [of v hi] by (simp add: for_lockstep.simps)
next
  case (Suc n)
  from Suc.hyps(2) [symmetric] have lt: "v <s hi" and n: "n = extent (v + 1) hi"
    using extent_Suc by auto
  have up: "[0..<Suc n] = 0 # map Suc [0..<n]"
    by (simp add: upt_conv_Cons map_Suc_upt del: upt_Suc)
  show ?case
    apply (subst for_lockstep.simps)
    apply (simp only: Suc.hyps(2) [symmetric] up)
    apply (simp add: lt run_cells_map Suc.hyps(1) [OF n] n add.assoc split: option.splits)
    done
qed

lemma for_lockstep_unroll':
  "for_lockstep body hi v sv =
     run_cells (\<lambda>i. body (v + of_nat i) (sv + of_nat i)) [0..<extent v hi]"
  by (rule ext) (rule for_lockstep_unroll)

lemma run_cells_map': "run_cells f (map g xs) = run_cells (\<lambda>x. f (g x)) xs"
  by (rule ext) (rule run_cells_map)

lemma run_cells_product':
  "run_cells f (List.product xs ys) =
     run_cells (\<lambda>x. run_cells (\<lambda>y. f (x, y)) ys) xs"
  by (rule ext) (rule run_cells_product)

lemma at_cells_eq: "at_cells op ((x, y, z), (sx, sy, sz)) = op x y z sx sy sz"
  by (rule ext) (simp add: at_cells_def)

lemma blit_loops_cells:
  "blit_loops op b smin w = run_cells (at_cells op) (blit_cells b smin) w"
  unfolding blit_loops_def blit_cells_def
  by (simp add: for_lockstep_unroll' run_cells_map' run_cells_product' at_cells_eq)


lemma extent_bound: "extent lo hi < 2 ^ 64"
proof -
  have "sint hi < 2 ^ (LENGTH(64) - 1)" by (rule sint_lt)
  moreover have "- (2 ^ (LENGTH(64) - 1)) \<le> sint lo" by (rule sint_ge)
  ultimately show ?thesis by (simp add: extent_def)
qed

lemma of_nat_inj_extent:
  assumes "i < extent lo hi" "j < extent lo hi" "(of_nat i :: go_int) = of_nat j"
  shows "i = j"
proof -
  have "i < 2 ^ LENGTH(64)" "j < 2 ^ LENGTH(64)"
    using assms extent_bound [of lo hi] by simp_all
  then show ?thesis using assms(3)
  proof -
    assume b: "i < 2 ^ LENGTH(64)" "j < 2 ^ LENGTH(64)"
    from assms(3) have "unat (of_nat i :: go_int) = unat (of_nat j :: go_int)" by simp
    with b show "i = j" by (simp add: unat_of_nat)
  qed
qed

lemma sint_add_extent:
  assumes "i < extent lo hi"
  shows "sint (lo + of_nat i) = sint lo + int i"
proof -
  have "sint hi < 2 ^ (LENGTH(64) - 1)" by (rule sint_lt)
  moreover have "- (2 ^ (LENGTH(64) - 1)) \<le> sint lo" by (rule sint_ge)
  moreover have "sint lo + int i < sint hi" using assms by (simp add: extent_def)
  ultimately have "signed_take_bit (LENGTH(64) - 1) (sint lo + int i) = sint lo + int i"
    by (intro signed_take_bit_int_eq_self) auto
  moreover have "lo + of_nat i = word_of_int (sint lo + int i)" by simp
  ultimately show ?thesis by (simp only: sint_sbintrunc')
qed

lemma length_blit_cells:
  "length (blit_cells b smin) =
     extent (X (MinP b)) (X (MaxP b)) * extent (Y (MinP b)) (Y (MaxP b)) *
     extent (Z (MinP b)) (Z (MaxP b))"
  by (simp add: blit_cells_def)

lemma distinct_blit_cells: "distinct (map fst (blit_cells b smin))"
  unfolding blit_cells_def
  by (auto simp: distinct_map distinct_product inj_on_def dest: of_nat_inj_extent)

lemma product3_nth:
  assumes "n < N * M * K"
  shows "List.product [0..<K] (List.product [0..<M] [0..<N]) ! n =
           (n div (N * M), n div N mod M, n mod N)"
proof -
  from assms have pos: "0 < N" "0 < M" by (cases N; cases M; simp)+
  have k: "n div (M * N) < K" using assms
    by (simp add: less_mult_imp_div_less mult.commute mult.left_commute)
  have r: "n mod (M * N) < M * N" using pos by simp
  have j: "n mod (M * N) div N = n div N mod M"
    by (simp add: mod_mult2_eq mult.commute [of M N] pos)
  have i: "n mod (M * N) mod N = n mod N"
    by (simp add: mod_mult2_eq mult.commute [of M N])
  have jM: "n div N mod M < M" using pos by simp
  have iN: "n mod N < N" using pos by simp
  have "List.product [0..<K] (List.product [0..<M] [0..<N]) ! n =
          ([0..<K] ! (n div (M * N)), List.product [0..<M] [0..<N] ! (n mod (M * N)))"
    using assms by (subst product_nth) (simp_all add: mult.commute mult.left_commute)
  also have "List.product [0..<M] [0..<N] ! (n mod (M * N)) =
          ([0..<M] ! (n mod (M * N) div N), [0..<N] ! (n mod (M * N) mod N))"
    using r by (subst product_nth) simp_all
  finally show ?thesis using k jM iN by (simp add: j i mult.commute)
qed

lemma nth_blit_cells:
  assumes "n < extent (X (MinP b)) (X (MaxP b)) * extent (Y (MinP b)) (Y (MaxP b)) *
     extent (Z (MinP b)) (Z (MaxP b))"
  shows "blit_cells b smin ! n =
    ((X (MinP b) + of_nat (n mod extent (X (MinP b)) (X (MaxP b))),
      Y (MinP b) + of_nat (n div extent (X (MinP b)) (X (MaxP b)) mod extent (Y (MinP b)) (Y (MaxP b))),
      Z (MinP b) + of_nat (n div (extent (X (MinP b)) (X (MaxP b)) * extent (Y (MinP b)) (Y (MaxP b))))),
     (X smin + of_nat (n mod extent (X (MinP b)) (X (MaxP b))),
      Y smin + of_nat (n div extent (X (MinP b)) (X (MaxP b)) mod extent (Y (MinP b)) (Y (MaxP b))),
      Z smin + of_nat (n div (extent (X (MinP b)) (X (MaxP b)) * extent (Y (MinP b)) (Y (MaxP b))))))"
proof -
  let ?P = "List.product [0..<extent (Z (MinP b)) (Z (MaxP b))]
             (List.product [0..<extent (Y (MinP b)) (Y (MaxP b))]
               [0..<extent (X (MinP b)) (X (MaxP b))])"
  have len: "n < length ?P" using assms by (simp add: ac_simps)
  show ?thesis
    unfolding blit_cells_def
    by (simp only: nth_map [OF len] product3_nth [OF assms] prod.case)
qed

lemma Blit_cells:
  "Blit dst src dp sr w =
     run_cells (at_cells (copy_voxel dst src))
       (blit_cells (clip_b (Image_Bounds dst w) (Image_Bounds src w) dp sr)
                   (MinP (clip_sr (Image_Bounds src w) sr))) w"
  by (simp add: Blit_def clip_b_def clip_sr_def Let_def blit_loops_cells)

lemma BlitOp_cells:
  "BlitOp dst src dp sr op w =
     run_cells (at_cells op)
       (blit_cells (clip_b (Image_Bounds dst w) (Image_Bounds src w) dp sr)
                   (MinP (clip_sr (Image_Bounds src w) sr))) w"
  by (simp add: BlitOp_def clip_b_def clip_sr_def Let_def blit_loops_cells)

lemma run_cells_recorder:
  "run_cells (at_cells (copy_voxel (recorder db) (fixed_src sb g))) cs log =
     Some (log @ map (read_at g) cs)"
  by (induction cs arbitrary: log)
     (auto simp: at_cells_def copy_voxel_def recorder_def fixed_src_def read_at_def)

lemma empty_cells: "Box_Empty b \<Longrightarrow> blit_cells b smin = []"
proof -
  assume "Box_Empty b"
  then have "length (blit_cells b smin) = 0"
    by (auto simp: length_blit_cells Box_Empty_def extent_def word_sle_eq)
  then show ?thesis by simp
qed

lemma Intersect_Empty_right: "Box_Empty s \<Longrightarrow> Box_Empty (Box_Intersect b s)"
  unfolding Box_Intersect_def Let_def Box_Empty_def ZB_def ZP_def
    word_sle_eq word_sless_alt
  by (simp; linarith)

lemma Intersect_Empty_left: "Box_Empty b \<Longrightarrow> Box_Empty (Box_Intersect b s)"
  unfolding Box_Intersect_def Let_def Box_Empty_def ZB_def ZP_def
    word_sle_eq word_sless_alt
  by (simp; linarith)

lemma not_Overlaps_Empty: "\<not> Box_Overlaps b s \<Longrightarrow> Box_Empty (Box_Intersect b s)"
  unfolding Box_Overlaps_def Box_Intersect_def Let_def Box_Empty_def ZB_def ZP_def
    word_sle_eq word_sless_alt
  by (simp; linarith)

lemma Intersect_canon:
  "X (MinP (Box_Intersect b s)) \<le>s X (MaxP (Box_Intersect b s)) \<and>
   Y (MinP (Box_Intersect b s)) \<le>s Y (MaxP (Box_Intersect b s)) \<and>
   Z (MinP (Box_Intersect b s)) \<le>s Z (MaxP (Box_Intersect b s))"
  unfolding Box_Intersect_def Let_def ZB_def ZP_def word_sle_eq word_sless_alt
  by (simp; linarith)


lemma empty_src_footprint:
  assumes "Box_Empty (Box_Intersect sr sb)"
  shows "Box_Empty \<lparr>MinP = dp, MaxP = Point_Add (Box_Size (Box_Intersect sr sb)) dp\<rparr>"
proof -
  let ?s = "Box_Intersect sr sb"
  from assms Intersect_canon [of sr sb]
  have "sint (X (MaxP ?s)) = sint (X (MinP ?s)) \<or> sint (Y (MaxP ?s)) = sint (Y (MinP ?s))
        \<or> sint (Z (MaxP ?s)) = sint (Z (MinP ?s))"
    unfolding Box_Empty_def word_sle_eq by linarith
  then have "X (MaxP ?s) = X (MinP ?s) \<or> Y (MaxP ?s) = Y (MinP ?s) \<or> Z (MaxP ?s) = Z (MinP ?s)"
    by (auto dest: signed_word_eqI)
  then show ?thesis
    by (auto simp: Box_Empty_def Point_Add_def Box_Size_def)
qed

lemma clip_b_Empty:
  assumes "Box_Empty (clip_sr sb sr) \<or> Box_Empty (clip_b db sb dp sr) \<or>
     \<not> Box_Overlaps db \<lparr>MinP = dp, MaxP = Point_Add (Box_Size (clip_sr sb sr)) dp\<rparr>"
  shows "Box_Empty (clip_b db sb dp sr)"
  using assms
  by (auto simp: clip_b_def clip_sr_def Let_def
      intro: Intersect_Empty_right empty_src_footprint not_Overlaps_Empty)

section \<open>Lemmas on the decoder\<close>

subsection \<open>Every pass of the loop shortens the stream\<close>

lemma binary_Read_Inr:
  "binary_Read n r = Inr (bs, r') \<Longrightarrow> length bs = n \<and> length r' + n = length r"
  by (auto simp: binary_Read_def split: if_splits)

lemma read_palette_length:
  "read_palette n r = Inr (pal, r') \<Longrightarrow> length r' \<le> length r"
proof (induction n arbitrary: r pal)
  case 0
  then show ?case by simp
next
  case (Suc n)
  then show ?case
    by (fastforce split: sum.splits prod.splits dest: binary_Read_Inr)
qed

lemma read_voxels_length:
  "read_voxels img numVoxels i r s = Inr (r', s') \<Longrightarrow> length r' \<le> length r"
proof (induction img numVoxels i r s rule: read_voxels.induct)
  case (1 img numVoxels i r s)
  show ?case
  proof (cases "i < numVoxels")
    case True
    with "1.prems" obtain voxel r1 s1 where
      a: "binary_Read 4 r = Inr (voxel, r1)"
      and b: "vox_Set img (ucast (voxel ! 0)) (ucast (voxel ! 1)) (ucast (voxel ! 2)) (voxel ! 3) s = Some s1"
      and c: "read_voxels img numVoxels (i + 1) r1 s1 = Inr (r', s')"
      by (subst (asm) read_voxels.simps) (auto split: sum.splits option.splits)
    from "1.IH" [OF True a _ b c] have "length r' \<le> length r1" by simp
    with binary_Read_Inr [OF a] show ?thesis by simp
  next
    case False
    with "1.prems" show ?thesis by (subst (asm) read_voxels.simps) simp
  qed
qed

lemma Reader_Read_length: "Reader_Read n r = Inr r' \<Longrightarrow> length r' \<le> length r"
  by (auto simp: Reader_Read_def split: if_splits)

lemma read_chunkHeader_Inr:
  "read_chunkHeader r = Inr (h, r') \<Longrightarrow> length r' + 12 = length r"
  by (auto simp: read_chunkHeader_def split: sum.splits dest: binary_Read_Inr)

lemma child_chunk_consumes:
  "child_chunk img st = Inr st' \<Longrightarrow> length (reader st') + 12 \<le> length (reader st)"
  unfolding child_chunk_def Let_def
  by (auto split: sum.splits prod.splits if_splits option.splits
      dest!: read_chunkHeader_Inr binary_Read_Inr read_palette_length read_voxels_length
        Reader_Read_length)

lemma children_induct [consumes 0, case_names step]:
  assumes "\<And>st. (\<And>st'. numBytes st < c \<Longrightarrow> child_chunk img st = Inr st' \<Longrightarrow> P st') \<Longrightarrow> P st"
  shows "P st"
proof (induction "length (reader st)" arbitrary: st rule: less_induct)
  case less
  show ?case
  proof (rule assms)
    fix st'
    assume "numBytes st < c" and "child_chunk img st = Inr st'"
    then have "length (reader st') < length (reader st)"
      using child_chunk_consumes [of img st st'] by simp
    then show "P st'" by (rule less)
  qed
qed

lemma children_returns:
  "\<exists>res. children img c st = Some res \<and>
     (case res of Inl out \<Rightarrow> True | Inr st' \<Rightarrow> \<not> numBytes st' < c)"
proof (induction st rule: children_induct [where c = c and img = img])
  case (step st)
  show ?case
  proof (cases "numBytes st < c")
    case True
    show ?thesis
    proof (cases "child_chunk img st")
      case (Inl out)
      with True show ?thesis by (subst children.simps) simp
    next
      case (Inr st')
      from step [OF True Inr] True Inr show ?thesis by (subst children.simps) simp
    qed
  next
    case False
    then show ?thesis by (subst children.simps) simp
  qed
qed

lemma decode_chunks_returns: "\<exists>res. decode_chunks r img s = Some res"
  unfolding decode_chunks_def
  using children_returns by (auto split: sum.splits prod.splits) blast+

subsection \<open>Reading what the builders wrote\<close>

lemma le_uint32_le32: "le_uint32 (le32 w) = w"
  unfolding le_uint32_def le32_def
  apply (rule bit_eqI)
  apply (auto simp add: bit_simps)
  subgoal for n by (cases "24 \<le> n") simp_all
  done

lemma unat_of_char: "unat (of_nat (of_char c) :: uint8) = of_char c"
proof -
  have "(of_char c :: nat) < 256" by (rule nat_of_char_less_256)
  then show ?thesis by (simp add: unat_of_nat)
qed

lemma go_string_go_bytes: "go_string (go_bytes str) = str"
  by (induction str) (simp_all add: go_string_def go_bytes_def unat_of_char)

lemma length_le32 [simp]: "length (le32 w) = 4"
  by (simp add: le32_def)

lemma length_go_bytes [simp]: "length (go_bytes str) = length str"
  by (simp add: go_bytes_def)

lemma length_chunk_header [simp]: "length (chunk_header tag d c) = length tag + 8"
  by (simp add: chunk_header_def)

lemma binary_Read_append: "length bs = n \<Longrightarrow> binary_Read n (bs @ rest) = Inr (bs, rest)"
  by (simp add: binary_Read_def)

lemma read_chunkHeader_chunk:
  "length tag = 4 \<Longrightarrow>
   read_chunkHeader (chunk_header tag d c @ rest) =
     Inr (\<lparr>ChunkId = go_bytes tag, DataSize = d, ChildrenSize = c\<rparr>, rest)"
  by (simp add: read_chunkHeader_def binary_Read_append)
     (simp add: chunk_header_def le_uint32_le32)

lemma read_palette_table:
  "read_palette (length table) (concat (map rgba_bytes table) @ rest) = Inr (table, rest)"
proof (induction table)
  case Nil
  show ?case by simp
next
  case (Cons c table)
  obtain r g b a where c: "c = RGBA r g b a" by (cases c)
  show ?case by (simp add: c binary_Read_def Cons.IH)
qed

lemma child_chunk_size:
  "child_chunk img \<lparr>numBytes = n, hasPalette = h, reader = size_chunk x y z @ rest, sink = s\<rparr> =
     (case vox_SetBounds img (Bx 0 0 0 (ucast x) (ucast y) (ucast z)) s of
        None \<Rightarrow> Inl Panicked
      | Some s' \<Rightarrow> Inr \<lparr>numBytes = n + 24, hasPalette = h, reader = rest, sink = s'\<rparr>)"
proof -
  have rd: "binary_Read 12 (le32 x @ le32 y @ le32 z @ rest) = Inr (le32 x @ le32 y @ le32 z, rest)"
    using binary_Read_append [of "le32 x @ le32 y @ le32 z" 12 rest] by simp
  show ?thesis
    by (simp add: child_chunk_def size_chunk_def read_chunkHeader_chunk go_string_go_bytes
        sizeShunkID_def rd le_uint32_le32 split: option.splits)
qed

lemma child_chunk_rgba:
  assumes "length table = 256"
  shows "child_chunk img \<lparr>numBytes = n, hasPalette = h, reader = rgba_chunk table @ rest, sink = s\<rparr> =
     (case vox_SetPalette img table s of
        None \<Rightarrow> Inl Panicked
      | Some s' \<Rightarrow> Inr \<lparr>numBytes = n + 12 + 4096, hasPalette = True, reader = rest, sink = s'\<rparr>)"
  using read_palette_table [of table rest]
  by (simp add: assms child_chunk_def rgba_chunk_def read_chunkHeader_chunk go_string_go_bytes
      sizeShunkID_def paletteChunkID_def split: option.splits)

lemma of_nat_less_uint32:
  "k < L \<Longrightarrow> L < 2 ^ 32 \<Longrightarrow> (of_nat k :: uint32) < of_nat L"
  by (simp add: word_less_nat_alt unat_of_nat)

lemma read_voxels_list:
  assumes "k + length vs = L" and "L < 2 ^ 32"
  shows "read_voxels img (of_nat L) (of_nat k) (concat (map voxel_bytes vs) @ rest) s =
     (case run_cells (store_voxel img) vs s of
        None \<Rightarrow> Inl Panicked
      | Some s' \<Rightarrow> Inr (rest, s'))"
  using assms
proof (induction vs arbitrary: k s)
  case Nil
  then show ?case by (subst read_voxels.simps) simp
next
  case (Cons v vs)
  obtain x y z i where v: "v = (x, y, z, i)" by (cases v)
  from Cons.prems have lt: "(of_nat k :: uint32) < of_nat L"
    by (intro of_nat_less_uint32) simp_all
  have rd: "binary_Read 4 (x # y # z # i # concat (map voxel_bytes vs) @ rest) =
      Inr ([x, y, z, i], concat (map voxel_bytes vs) @ rest)"
    by (simp add: binary_Read_def)
  have nxt: "(of_nat k :: uint32) + 1 = of_nat (Suc k)" by simp
  from Cons.prems have "Suc k + length vs = L" by simp
  note IH = Cons.IH [OF this Cons.prems(2)]
  show ?case
    apply (subst read_voxels.simps)
    apply (simp only: lt if_True v list.map concat.simps voxel_bytes.simps append.simps rd
        sum.case prod.case nxt)
    apply (simp add: IH [unfolded of_nat_Suc] split: option.splits)
    done
qed

lemma child_chunk_xyzi:
  assumes "length vs < 2 ^ 32"
  shows "child_chunk img \<lparr>numBytes = n, hasPalette = h, reader = xyzi_chunk vs @ rest, sink = s\<rparr> =
     (case run_cells (store_voxel img) vs s of
        None \<Rightarrow> Inl Panicked
      | Some s' \<Rightarrow>
          Inr \<lparr>numBytes = n + 12 + 4 + 4 * of_nat (length vs), hasPalette = h,
               reader = rest, sink = s'\<rparr>)"
proof -
  have rd: "binary_Read 4 (le32 (of_nat (length vs)) @ concat (map voxel_bytes vs) @ rest) =
      Inr (le32 (of_nat (length vs)), concat (map voxel_bytes vs) @ rest)"
    by (simp add: binary_Read_append)
  have vx: "read_voxels img (of_nat (length vs)) 0 (concat (map voxel_bytes vs) @ rest) s =
     (case run_cells (store_voxel img) vs s of
        None \<Rightarrow> Inl Panicked
      | Some s' \<Rightarrow> Inr (rest, s'))"
    using read_voxels_list [of 0 vs "length vs" img rest s] assms by simp
  show ?thesis
    by (simp add: child_chunk_def xyzi_chunk_def read_chunkHeader_chunk go_string_go_bytes
        sizeShunkID_def paletteChunkID_def voxelChunkID_def rd le_uint32_le32 vx
        split: option.splits)
qed

lemma children_step:
  "numBytes st < c \<Longrightarrow> child_chunk img st = Inr st' \<Longrightarrow>
   children img c st = children img c st'"
  by (subst children.simps) simp

lemma children_abort:
  "numBytes st < c \<Longrightarrow> child_chunk img st = Inl out \<Longrightarrow>
   children img c st = Some (Inl out)"
  by (subst children.simps) simp

lemma children_exit: "\<not> numBytes st < c \<Longrightarrow> children img c st = Some (Inr st)"
  by (subst children.simps) simp

lemma decode_chunks_stream:
  "decode_chunks (vox_stream c chunks) img s =
     children img c \<lparr>numBytes = 0, hasPalette = False, reader = concat chunks, sink = s\<rparr>"
proof -
  have fh: "binary_Read 8 (file_header @ chunk_header ''MAIN'' 0 c @ concat chunks) =
      Inr (file_header, chunk_header ''MAIN'' 0 c @ concat chunks)"
    by (rule binary_Read_append) (simp add: file_header_def)
  have magic: "go_string (take 4 file_header) = voxMagic"
    by (simp add: file_header_def go_string_go_bytes voxMagic_def)
  have version: "file_header ! 4 = voxVersion"
    by (simp add: file_header_def voxVersion_def nth_append)
  show ?thesis
    by (simp add: decode_chunks_def vox_stream_def fh magic version read_chunkHeader_chunk
        go_string_go_bytes mainChunkID_def)
qed

lemma NewPaletted_ZB: "NewPaletted [] ZB = Some empty_img"
  by (simp add: NewPaletted_def Paletted_SetBounds_def noTransform_def ZB_def ZP_def Pt_def
      empty_img_def word_sless_alt)

lemma length_some_table: "length some_table = 256"
  by (simp add: some_table_def)

subsection \<open>Decoding the round-trip streams\<close>

lemma SetBounds_222:
  "Transformer p = noTransform \<Longrightarrow>
   Paletted_SetBounds p (Bx 0 0 0 2 2 2) =
     Some (p\<lparr>bounds := Bx 0 0 0 2 2 2, Data := [0, 0, 0, 0, 0, 0, 0, 0]\<rparr>)"
proof -
  have r: "replicate 8 (0 :: uint8) = [0, 0, 0, 0, 0, 0, 0, 0]"
    by (simp add: eval_nat_numeral)
  assume "Transformer p = noTransform"
  then show ?thesis
    by (simp add: Paletted_SetBounds_def noTransform_def Bx_def ZP_def Pt_def word_sless_alt r)
qed

lemma two_voxels_stored:
  assumes "Transformer p = noTransform" and "bounds p = Bx 0 0 0 2 2 2"
    and "Data p = [0, 0, 0, 0, 0, 0, 0, 0]"
  shows "run_cells (store_voxel Paletted_sink) [(0, 0, 0, 5), (1, 1, 1, 9)] p =
     Some (p\<lparr>Data := [5, 0, 0, 0, 0, 0, 0, 9]\<rparr>)"
  using assms
  by (simp add: Paletted_sink_def Paletted_Set_def Paletted_Offset_def in_range_def
      noTransform_def Bx_def word_sle_eq word_sless_alt)

lemma roundtrip_children:
  assumes "length table = 256" and "Transformer p = noTransform"
  shows "children Paletted_sink 1084
     \<lparr>numBytes = 0, hasPalette = False,
      reader = concat [size_chunk 2 2 2, two_voxels, rgba_chunk table], sink = p\<rparr> =
     Some (Inr \<lparr>numBytes = 4156, hasPalette = True, reader = [],
       sink = p\<lparr>bounds := Bx 0 0 0 2 2 2, Data := [5, 0, 0, 0, 0, 0, 0, 9],
                Palette := table\<rparr>\<rparr>)"
proof -
  let ?p1 = "p\<lparr>bounds := Bx 0 0 0 2 2 2, Data := [0, 0, 0, 0, 0, 0, 0, 0]\<rparr>"
  let ?p2 = "p\<lparr>bounds := Bx 0 0 0 2 2 2, Data := [5, 0, 0, 0, 0, 0, 0, 9]\<rparr>"
  let ?p3 = "p\<lparr>bounds := Bx 0 0 0 2 2 2, Data := [5, 0, 0, 0, 0, 0, 0, 9], Palette := table\<rparr>"
  have c1: "child_chunk Paletted_sink \<lparr>numBytes = 0, hasPalette = False,
      reader = size_chunk 2 2 2 @ two_voxels @ rgba_chunk table @ [], sink = p\<rparr> =
      Inr \<lparr>numBytes = 24, hasPalette = False, reader = two_voxels @ rgba_chunk table @ [],
           sink = ?p1\<rparr>"
    using SetBounds_222 [OF assms(2)]
    by (simp add: child_chunk_size) (simp add: Paletted_sink_def)
  have st: "run_cells (store_voxel Paletted_sink) [(0, 0, 0, 5), (1, 1, 1, 9)] ?p1 = Some ?p2"
    using two_voxels_stored [of ?p1] assms(2) by simp
  have c2: "child_chunk Paletted_sink \<lparr>numBytes = 24, hasPalette = False,
      reader = two_voxels @ rgba_chunk table @ [], sink = ?p1\<rparr> =
      Inr \<lparr>numBytes = 48, hasPalette = False, reader = rgba_chunk table @ [], sink = ?p2\<rparr>"
    unfolding two_voxels_def
    apply (subst child_chunk_xyzi)
     apply simp
    apply (simp only: st option.case)
    apply simp
    done
  have c3: "child_chunk Paletted_sink \<lparr>numBytes = 48, hasPalette = False,
      reader = rgba_chunk table @ [], sink = ?p2\<rparr> =
      Inr \<lparr>numBytes = 4156, hasPalette = True, reader = [], sink = ?p3\<rparr>"
    by (subst child_chunk_rgba [OF assms(1)])
       (simp add: Paletted_sink_def Paletted_SetPalette_def)
  show ?thesis
    apply (simp only: concat.simps)
    apply (subst children_step [OF _ c1], simp)
    apply (subst children_step [OF _ c2], simp)
    apply (subst children_step [OF _ c3], simp)
    apply (subst children_exit, simp)
    apply simp
    done
qed

lemma Decode_of_children:
  "children img c \<lparr>numBytes = 0, hasPalette = False, reader = concat chunks, sink = s\<rparr> =
     Some (Inr st) \<Longrightarrow>
   Decode (vox_stream c chunks) img s = Some (finish img st)"
  by (simp add: Decode_def decode_chunks_stream)

lemma bit_cases: "0 \<le>s x \<Longrightarrow> x <s 2 \<Longrightarrow> x = 0 \<or> x = 1" for x :: go_int
proof -
  assume "0 \<le>s x" and "x <s 2"
  then have "sint x = 0 \<or> sint x = 1" by (auto simp: word_sle_eq word_sless_alt)
  then have "sint x = sint (0 :: go_int) \<or> sint x = sint (1 :: go_int)" by simp
  then show ?thesis using signed_word_eqI [of x 0] signed_word_eqI [of x 1] by blast
qed

lemma in_bounds_222:
  "Point_In (Pt x y z) (Bx 0 0 0 2 2 2) \<Longrightarrow>
     (x = 0 \<or> x = 1) \<and> (y = 0 \<or> y = 1) \<and> (z = 0 \<or> z = 1)"
proof -
  assume "Point_In (Pt x y z) (Bx 0 0 0 2 2 2)"
  then have "0 \<le>s x" "x <s 2" "0 \<le>s y" "y <s 2" "0 \<le>s z" "z <s 2"
    by (simp_all add: Point_In_def Pt_def Bx_def word_sless_alt)
  then show ?thesis by (simp add: bit_cases)
qed

lemma Get_decoded:
  assumes "bounds p = Bx 0 0 0 2 2 2" and "Data p = [5, 0, 0, 0, 0, 0, 0, 9]"
  shows "Paletted_Get p 0 0 0 = Some 5" "Paletted_Get p 1 0 0 = Some 0"
    "Paletted_Get p 0 1 0 = Some 0" "Paletted_Get p 1 1 0 = Some 0"
    "Paletted_Get p 0 0 1 = Some 0" "Paletted_Get p 1 0 1 = Some 0"
    "Paletted_Get p 0 1 1 = Some 0" "Paletted_Get p 1 1 1 = Some 9"
  using assms
  by (simp_all add: Paletted_Get_def Paletted_Offset_def in_range_def Bx_def word_sle_eq
      word_sless_alt)

lemma Decode_of_abort:
  "children img c \<lparr>numBytes = 0, hasPalette = False, reader = concat chunks, sink = s\<rparr> =
     Some (Inl out) \<Longrightarrow>
   Decode (vox_stream c chunks) img s = Some out"
  by (simp add: Decode_def decode_chunks_stream)

lemma voxels_first_panics:
  "Decode (stream_XYZI_SIZE_RGBA some_table) Paletted_sink empty_img = Some Panicked"
proof -
  have st: "run_cells (store_voxel Paletted_sink) [(0, 0, 0, 5), (1, 1, 1, 9)] empty_img = None"
    by (simp add: Paletted_sink_def Paletted_Set_def Paletted_Offset_def in_range_def
        noTransform_def empty_img_def Pt_def)
  have c1: "child_chunk Paletted_sink \<lparr>numBytes = 0, hasPalette = False,
      reader = two_voxels @ size_chunk 2 2 2 @ rgba_chunk some_table @ [], sink = empty_img\<rparr> =
      Inl Panicked"
    unfolding two_voxels_def
    apply (subst child_chunk_xyzi)
     apply simp
    apply (simp only: st option.case)
    done
  have "children Paletted_sink 1084 \<lparr>numBytes = 0, hasPalette = False,
      reader = concat [two_voxels, size_chunk 2 2 2, rgba_chunk some_table], sink = empty_img\<rparr> =
      Some (Inl Panicked)"
    apply (simp only: concat.simps)
    apply (subst children_abort [OF _ c1], simp)
    apply simp
    done
  then show ?thesis
    unfolding stream_XYZI_SIZE_RGBA_def by (rule Decode_of_abort)
qed

lemma voxels_first_wiped:
  "Decode (stream_XYZI_SIZE_RGBA some_table) Paletted_sink demo_dst =
     Some (Return None (demo_dst\<lparr>Palette := some_table\<rparr>))"
proof -
  let ?p1 = "demo_dst\<lparr>Data := [5, 0, 0, 0, 0, 0, 0, 9]\<rparr>"
  let ?p3 = "demo_dst\<lparr>Palette := some_table\<rparr>"
  have t: "Transformer demo_dst = noTransform" "bounds demo_dst = Bx 0 0 0 2 2 2"
    "Data demo_dst = [0, 0, 0, 0, 0, 0, 0, 0]"
    by (simp_all add: demo_dst_def)
  have st: "run_cells (store_voxel Paletted_sink) [(0, 0, 0, 5), (1, 1, 1, 9)] demo_dst = Some ?p1"
    by (rule two_voxels_stored [OF t])
  have c1: "child_chunk Paletted_sink \<lparr>numBytes = 0, hasPalette = False,
      reader = two_voxels @ size_chunk 2 2 2 @ rgba_chunk some_table @ [], sink = demo_dst\<rparr> =
      Inr \<lparr>numBytes = 24, hasPalette = False,
           reader = size_chunk 2 2 2 @ rgba_chunk some_table @ [], sink = ?p1\<rparr>"
    unfolding two_voxels_def
    apply (subst child_chunk_xyzi)
     apply simp
    apply (simp only: st option.case)
    apply simp
    done
  have sb: "Paletted_SetBounds ?p1 (Bx 0 0 0 2 2 2) = Some demo_dst"
    using SetBounds_222 [of ?p1] by (simp add: demo_dst_def)
  have c2: "child_chunk Paletted_sink \<lparr>numBytes = 24, hasPalette = False,
      reader = size_chunk 2 2 2 @ rgba_chunk some_table @ [], sink = ?p1\<rparr> =
      Inr \<lparr>numBytes = 48, hasPalette = False, reader = rgba_chunk some_table @ [],
           sink = demo_dst\<rparr>"
    using sb by (simp add: child_chunk_size) (simp add: Paletted_sink_def)
  have c3: "child_chunk Paletted_sink \<lparr>numBytes = 48, hasPalette = False,
      reader = rgba_chunk some_table @ [], sink = demo_dst\<rparr> =
      Inr \<lparr>numBytes = 4156, hasPalette = True, reader = [], sink = ?p3\<rparr>"
    by (subst child_chunk_rgba [OF length_some_table])
       (simp add: Paletted_sink_def Paletted_SetPalette_def)
  have "children Paletted_sink 1084 \<lparr>numBytes = 0, hasPalette = False,
      reader = concat [two_voxels, size_chunk 2 2 2, rgba_chunk some_table], sink = demo_dst\<rparr> =
      Some (Inr \<lparr>numBytes = 4156, hasPalette = True, reader = [], sink = ?p3\<rparr>)"
    apply (simp only: concat.simps)
    apply (subst children_step [OF _ c1], simp)
    apply (subst children_step [OF _ c2], simp)
    apply (subst children_step [OF _ c3], simp)
    apply (subst children_exit, simp)
    apply simp
    done
  from Decode_of_children [OF this] show ?thesis
    unfolding stream_XYZI_SIZE_RGBA_def by (simp add: finish_def)
qed

lemma length_rgba_chunk: "length (rgba_chunk table) = 12 + 4 * length table"
proof -
  have "length (concat (map rgba_bytes table)) = 4 * length table"
  proof (induction table)
    case Nil
    show ?case by simp
  next
    case (Cons c table)
    then show ?case by (cases c) simp
  qed
  then show ?thesis by (simp add: rgba_chunk_def)
qed

lemma palette_first_children:
  "children call_log 1084 \<lparr>numBytes = 0, hasPalette = False,
      reader = concat [rgba_chunk some_table, size_chunk 2 2 2, two_voxels], sink = []\<rparr> =
   Some (Inr \<lparr>numBytes = 4108, hasPalette = True, reader = size_chunk 2 2 2 @ two_voxels @ [],
              sink = [Call_SetPalette some_table]\<rparr>)"
proof -
  have c1: "child_chunk call_log \<lparr>numBytes = 0, hasPalette = False,
      reader = rgba_chunk some_table @ size_chunk 2 2 2 @ two_voxels @ [], sink = []\<rparr> =
      Inr \<lparr>numBytes = 4108, hasPalette = True, reader = size_chunk 2 2 2 @ two_voxels @ [],
           sink = [Call_SetPalette some_table]\<rparr>"
    by (subst child_chunk_rgba [OF length_some_table]) (simp add: call_log_def)
  show ?thesis
    apply (simp only: concat.simps)
    apply (subst children_step [OF _ c1], simp)
    apply (subst children_exit, simp)
    apply simp
    done
qed

lemma palette_second_children:
  "children call_log 1084 \<lparr>numBytes = 0, hasPalette = False,
      reader = concat [size_chunk 2 2 2, rgba_chunk some_table, two_voxels], sink = []\<rparr> =
   Some (Inr \<lparr>numBytes = 4132, hasPalette = True, reader = two_voxels @ [],
              sink = [Call_SetBounds (Bx 0 0 0 2 2 2), Call_SetPalette some_table]\<rparr>)"
proof -
  have c1: "child_chunk call_log \<lparr>numBytes = 0, hasPalette = False,
      reader = size_chunk 2 2 2 @ rgba_chunk some_table @ two_voxels @ [], sink = []\<rparr> =
      Inr \<lparr>numBytes = 24, hasPalette = False, reader = rgba_chunk some_table @ two_voxels @ [],
           sink = [Call_SetBounds (Bx 0 0 0 2 2 2)]\<rparr>"
    by (simp add: child_chunk_size) (simp add: call_log_def)
  have c2: "child_chunk call_log \<lparr>numBytes = 24, hasPalette = False,
      reader = rgba_chunk some_table @ two_voxels @ [],
      sink = [Call_SetBounds (Bx 0 0 0 2 2 2)]\<rparr> =
      Inr \<lparr>numBytes = 4132, hasPalette = True, reader = two_voxels @ [],
           sink = [Call_SetBounds (Bx 0 0 0 2 2 2), Call_SetPalette some_table]\<rparr>"
    by (subst child_chunk_rgba [OF length_some_table]) (simp add: call_log_def)
  show ?thesis
    apply (simp only: concat.simps)
    apply (subst children_step [OF _ c1], simp)
    apply (subst children_step [OF _ c2], simp)
    apply (subst children_exit, simp)
    apply simp
    done
qed

subsection \<open>The palette flag and the calls of \<open>SetPalette\<close>\<close>


lemma call_log_simps:
  "vox_SetBounds call_log b log = Some (log @ [Call_SetBounds b])"
  "vox_SetPalette call_log pal log = Some (log @ [Call_SetPalette pal])"
  "vox_Set call_log x y z index log = Some (log @ [Call_Set x y z index])"
  by (simp_all add: call_log_def)





section \<open>Properties of the geometry\<close>

text \<open>
  \<open>Box.In\<close> holds of an intersection and either operand, empty or not.
\<close>

lemma Intersect_In_left: "Box_In (Box_Intersect b s) b"
  unfolding Box_In_def Box_Intersect_def Let_def Box_Empty_def ZB_def ZP_def
    word_sle_eq word_sless_alt
  by (simp; linarith)

lemma Intersect_In_right: "Box_In (Box_Intersect b s) s"
  unfolding Box_In_def Box_Intersect_def Let_def Box_Empty_def ZB_def ZP_def
    word_sle_eq word_sless_alt
  by (simp; linarith)

text \<open>
  C8. For all boxes \<open>b\<close> and \<open>s\<close> whose intersection is not empty, the intersection lies
  in \<open>b\<close> and in \<open>s\<close> in the sense of \<open>Box.In\<close>.
\<close>

theorem Intersect_In_both:
  "\<not> Box_Empty (Box_Intersect b s) \<Longrightarrow>
     Box_In (Box_Intersect b s) b \<and> Box_In (Box_Intersect b s) s"
  by (simp add: Intersect_In_left Intersect_In_right)

theorem Intersect_In_both_witness:
  "\<not> Box_Empty (Box_Intersect (Bx 0 0 0 4 4 4) (Bx 2 (- 1) 1 9 3 8)) \<and>
   Box_Intersect (Bx 0 0 0 4 4 4) (Bx 2 (- 1) 1 9 3 8) = Bx 2 0 1 4 3 4 \<and>
   Box_In (Box_Intersect (Bx 0 0 0 4 4 4) (Bx 2 (- 1) 1 9 3 8)) (Bx 0 0 0 4 4 4) \<and>
   Box_In (Box_Intersect (Bx 0 0 0 4 4 4) (Bx 2 (- 1) 1 9 3 8)) (Bx 2 (- 1) 1 9 3 8)"
proof -
  have ne: "\<not> Box_Empty (Box_Intersect (Bx 0 0 0 4 4 4) (Bx 2 (- 1) 1 9 3 8))"
    by (simp add: Box_Empty_def Box_Intersect_def Bx_def word_sle_eq word_sless_alt)
  have eq: "Box_Intersect (Bx 0 0 0 4 4 4) (Bx 2 (- 1) 1 9 3 8) = Bx 2 0 1 4 3 4"
    by (simp add: Box_Intersect_def Bx_def word_sless_alt)
  from Intersect_In_both [OF ne] ne eq show ?thesis by simp
qed

text \<open>
  C9. Whatever the order of the two corners given to \<open>Bx\<close>, the box it returns has
  \<open>Min \<le> Max\<close> on the three axes (in the signed order of \<open>int\<close>).
\<close>

theorem Bx_canonical:
  "X (MinP (Bx x0 y0 z0 x1 y1 z1)) \<le>s X (MaxP (Bx x0 y0 z0 x1 y1 z1)) \<and>
   Y (MinP (Bx x0 y0 z0 x1 y1 z1)) \<le>s Y (MaxP (Bx x0 y0 z0 x1 y1 z1)) \<and>
   Z (MinP (Bx x0 y0 z0 x1 y1 z1)) \<le>s Z (MaxP (Bx x0 y0 z0 x1 y1 z1))"
  by (simp add: Bx_def Let_def word_sle_eq word_sless_alt)

theorem Bx_canonical_witness:
  "Bx 5 0 7 1 2 (- 3) = \<lparr>MinP = \<lparr>X = 1, Y = 0, Z = - 3\<rparr>, MaxP = \<lparr>X = 5, Y = 2, Z = 7\<rparr>\<rparr> \<and>
   X (MinP (Bx 5 0 7 1 2 (- 3))) \<le>s X (MaxP (Bx 5 0 7 1 2 (- 3))) \<and>
   Y (MinP (Bx 5 0 7 1 2 (- 3))) \<le>s Y (MaxP (Bx 5 0 7 1 2 (- 3))) \<and>
   Z (MinP (Bx 5 0 7 1 2 (- 3))) \<le>s Z (MaxP (Bx 5 0 7 1 2 (- 3)))"
proof -
  have "Bx 5 0 7 1 2 (- 3) = \<lparr>MinP = \<lparr>X = 1, Y = 0, Z = - 3\<rparr>, MaxP = \<lparr>X = 5, Y = 2, Z = 7\<rparr>\<rparr>"
    by (simp add: Bx_def word_sless_alt)
  with Bx_canonical [of 5 0 7 1 2 "- 3"] show ?thesis by simp
qed

section \<open>Properties of the blit engine\<close>

lemma demo_clip_sr: "clip_sr (Bx 0 0 0 2 2 2) (Bx 0 0 0 2 2 2) = Bx 0 0 0 2 2 2"
  by (simp add: clip_sr_def Box_Intersect_def Bx_def word_sless_alt)

lemma demo_clip_b:
  "clip_b (Bx 0 0 0 2 2 2) (Bx 0 0 0 2 2 2) (Pt 1 0 0) (Bx 0 0 0 2 2 2) = Bx 1 0 0 2 2 2"
  by (simp add: clip_b_def clip_sr_def Box_Intersect_def Bx_def Pt_def Point_Add_def
      Box_Size_def word_sless_alt)

lemma demo_cells:
  "blit_cells (Bx 1 0 0 2 2 2) (MinP (Bx 0 0 0 2 2 2)) =
     [((1, 0, 0), (0, 0, 0)), ((1, 1, 0), (0, 1, 0)),
      ((1, 0, 1), (0, 0, 1)), ((1, 1, 1), (0, 1, 1))]"
  by (simp add: blit_cells_def extent_def Bx_def word_sless_alt upt_conv_Cons)

lemma demo_run:
  "run_cells (at_cells (copy_voxel Paletted_dst Paletted_src))
     [((1, 0, 0), (0, 0, 0)), ((1, 1, 0), (0, 1, 0)),
      ((1, 0, 1), (0, 0, 1)), ((1, 1, 1), (0, 1, 1))] (demo_dst, demo_src) =
   Some (demo_dst\<lparr>Data := [0, 1, 0, 3, 0, 5, 0, 7]\<rparr>, demo_src)"
  by (simp add: at_cells_def copy_voxel_def Paletted_dst_def Paletted_src_def demo_dst_def
      demo_src_def Paletted_Set_def Paletted_Get_def Paletted_Offset_def in_range_def
      noTransform_def Bx_def word_sless_alt word_sle_eq)

lemma demo_bounds:
  "Image_Bounds Paletted_dst (demo_dst, demo_src) = Bx 0 0 0 2 2 2"
  "Image_Bounds Paletted_src (demo_dst, demo_src) = Bx 0 0 0 2 2 2"
  by (simp_all add: Paletted_dst_def Paletted_src_def Paletted_Bounds_def demo_dst_def
      demo_src_def)

text \<open>
  C4. Let \<open>s\<close> be the source region clipped to the source bounds and \<open>b\<close> the clipped
  iteration box, with extents \<open>N\<close>, \<open>M\<close>, \<open>K\<close>, all positive. Then \<open>Blit\<close> is the run of
  \<open>dst.Set(x, y, z, src.Get(sx, sy, sz))\<close> over the list \<open>blit_cells b (Min s)\<close>, and a
  destination that records its \<open>Set\<close> calls receives exactly that list. The list has
  \<open>N * M * K\<close> entries with pairwise distinct destination cells; its \<open>n\<close>-th entry is the
  destination \<open>Min b + (n mod N, n div N mod M, n div (N * M))\<close>, that is X runs fastest,
  then Y, then Z, each ascending without wrap-around, and the source cell of every entry
  is \<open>Min s\<close> plus the same offset (the cursor in lockstep).
\<close>

theorem Blit_visits_each_cell_once:
  fixes dst src :: "'w Image" and w :: 'w and db sb sr :: Box and dp :: Point
  defines "s \<equiv> clip_sr sb sr"
    and "b \<equiv> clip_b db sb dp sr"
  defines "N \<equiv> extent (X (MinP b)) (X (MaxP b))"
    and "M \<equiv> extent (Y (MinP b)) (Y (MaxP b))"
    and "K \<equiv> extent (Z (MinP b)) (Z (MaxP b))"
  assumes "Image_Bounds dst w = db" and "Image_Bounds src w = sb"
    and "\<not> Box_Empty b"
  shows "0 < N \<and> 0 < M \<and> 0 < K \<and>
    Blit dst src dp sr w =
      run_cells (at_cells (copy_voxel dst src)) (blit_cells b (MinP s)) w \<and>
    Blit (recorder db) (fixed_src sb g) dp sr [] =
      Some (map (read_at g) (blit_cells b (MinP s))) \<and>
    length (blit_cells b (MinP s)) = N * M * K \<and>
    distinct (map fst (blit_cells b (MinP s))) \<and>
    (\<forall>n < N * M * K. blit_cells b (MinP s) ! n =
       ((X (MinP b) + of_nat (n mod N), Y (MinP b) + of_nat (n div N mod M),
         Z (MinP b) + of_nat (n div (N * M))),
        (X (MinP s) + of_nat (n mod N), Y (MinP s) + of_nat (n div N mod M),
         Z (MinP s) + of_nat (n div (N * M))))) \<and>
    (\<forall>i < N. sint (X (MinP b) + of_nat i) = sint (X (MinP b)) + int i) \<and>
    (\<forall>j < M. sint (Y (MinP b) + of_nat j) = sint (Y (MinP b)) + int j) \<and>
    (\<forall>k < K. sint (Z (MinP b) + of_nat k) = sint (Z (MinP b)) + int k)"
proof -
  have pos: "0 < N \<and> 0 < M \<and> 0 < K"
    using assms(8) by (auto simp: N_def M_def K_def Box_Empty_def extent_def word_sle_eq)
  have run: "Blit dst src dp sr w =
      run_cells (at_cells (copy_voxel dst src)) (blit_cells b (MinP s)) w"
    using assms(6,7) by (simp add: Blit_cells s_def b_def)
  have rec: "Blit (recorder db) (fixed_src sb g) dp sr [] =
      Some (map (read_at g) (blit_cells b (MinP s)))"
  proof -
    have "Image_Bounds (recorder db) [] = db"
      and "Image_Bounds (fixed_src sb g) ([] :: (cell \<times> uint8) list) = sb"
      by (simp_all add: recorder_def fixed_src_def)
    then show ?thesis
      by (simp add: Blit_cells run_cells_recorder s_def b_def)
  qed
  have len: "length (blit_cells b (MinP s)) = N * M * K"
    by (simp add: length_blit_cells N_def M_def K_def)
  have nth: "\<forall>n < N * M * K. blit_cells b (MinP s) ! n =
       ((X (MinP b) + of_nat (n mod N), Y (MinP b) + of_nat (n div N mod M),
         Z (MinP b) + of_nat (n div (N * M))),
        (X (MinP s) + of_nat (n mod N), Y (MinP s) + of_nat (n div N mod M),
         Z (MinP s) + of_nat (n div (N * M))))"
    unfolding N_def M_def K_def by (intro allI impI) (rule nth_blit_cells)
  have asc: "(\<forall>i < N. sint (X (MinP b) + of_nat i) = sint (X (MinP b)) + int i) \<and>
    (\<forall>j < M. sint (Y (MinP b) + of_nat j) = sint (Y (MinP b)) + int j) \<and>
    (\<forall>k < K. sint (Z (MinP b) + of_nat k) = sint (Z (MinP b)) + int k)"
    unfolding N_def M_def K_def by (auto intro: sint_add_extent)
  from pos run rec len distinct_blit_cells [of b "MinP s"] nth asc show ?thesis
    by blast
qed

theorem Blit_visits_each_cell_once_witness:
  "\<not> Box_Empty (clip_b (Bx 0 0 0 2 2 2) (Bx 0 0 0 2 2 2) (Pt 1 0 0) (Bx 0 0 0 2 2 2)) \<and>
   Blit Paletted_dst Paletted_src (Pt 1 0 0) (Bx 0 0 0 2 2 2) (demo_dst, demo_src) =
     Some (demo_dst\<lparr>Data := [0, 1, 0, 3, 0, 5, 0, 7]\<rparr>, demo_src) \<and>
   Blit (recorder (Bx 0 0 0 2 2 2))
        (fixed_src (Bx 0 0 0 2 2 2) (\<lambda>x y z. ucast (x + 2 * y + 4 * z + 1)))
        (Pt 1 0 0) (Bx 0 0 0 2 2 2) [] =
     Some [((1, 0, 0), 1), ((1, 1, 0), 3), ((1, 0, 1), 5), ((1, 1, 1), 7)] \<and>
   length (blit_cells
     (clip_b (Bx 0 0 0 2 2 2) (Bx 0 0 0 2 2 2) (Pt 1 0 0) (Bx 0 0 0 2 2 2))
     (MinP (clip_sr (Bx 0 0 0 2 2 2) (Bx 0 0 0 2 2 2)))) = 1 * 2 * 2"
proof -
  have ne: "\<not> Box_Empty (clip_b (Bx 0 0 0 2 2 2) (Bx 0 0 0 2 2 2) (Pt 1 0 0) (Bx 0 0 0 2 2 2))"
    by (simp add: demo_clip_b) (simp add: Box_Empty_def Bx_def word_sle_eq word_sless_alt)
  note T = Blit_visits_each_cell_once [where dst = Paletted_dst and src = Paletted_src
      and w = "(demo_dst, demo_src)" and dp = "Pt 1 0 0" and sr = "Bx 0 0 0 2 2 2"
      and g = "\<lambda>x y z. ucast (x + 2 * y + 4 * z + 1)", OF demo_bounds ne]
  have run: "Blit Paletted_dst Paletted_src (Pt 1 0 0) (Bx 0 0 0 2 2 2) (demo_dst, demo_src) =
     Some (demo_dst\<lparr>Data := [0, 1, 0, 3, 0, 5, 0, 7]\<rparr>, demo_src)"
    using T [THEN conjunct2, THEN conjunct2, THEN conjunct2, THEN conjunct1]
    by (simp only: demo_clip_b demo_clip_sr demo_cells demo_run)
  have rec: "Blit (recorder (Bx 0 0 0 2 2 2))
        (fixed_src (Bx 0 0 0 2 2 2) (\<lambda>x y z. ucast (x + 2 * y + 4 * z + 1)))
        (Pt 1 0 0) (Bx 0 0 0 2 2 2) [] =
     Some [((1, 0, 0), 1), ((1, 1, 0), 3), ((1, 0, 1), 5), ((1, 1, 1), 7)]"
    using T [THEN conjunct2, THEN conjunct2, THEN conjunct2, THEN conjunct2, THEN conjunct1]
    by (simp add: demo_clip_b demo_clip_sr demo_cells read_at_def)
  have len: "length (blit_cells
     (clip_b (Bx 0 0 0 2 2 2) (Bx 0 0 0 2 2 2) (Pt 1 0 0) (Bx 0 0 0 2 2 2))
     (MinP (clip_sr (Bx 0 0 0 2 2 2) (Bx 0 0 0 2 2 2)))) = 1 * 2 * 2"
    by (simp only: demo_clip_b demo_clip_sr demo_cells) simp
  from ne run rec len show ?thesis by blast
qed

text \<open>
  C5. When the clipped source region is empty, or the clipped iteration box is empty, or
  the footprint \<open>Box{dp, dp + size(sr)}\<close> does not overlap the destination bounds, the
  walk has no cell and \<open>Blit\<close> returns the state it was given: no panic, every image
  unchanged. This holds of every destination and source, also of images whose \<open>Set\<close> and
  \<open>Get\<close> panic when called, so neither is called.
\<close>

theorem Blit_empty_noop:
  assumes "Box_Empty (clip_sr (Image_Bounds src w) sr) \<or>
           Box_Empty (clip_b (Image_Bounds dst w) (Image_Bounds src w) dp sr) \<or>
           \<not> Box_Overlaps (Image_Bounds dst w)
               \<lparr>MinP = dp, MaxP = Point_Add (Box_Size (clip_sr (Image_Bounds src w) sr)) dp\<rparr>"
  shows "Blit dst src dp sr w = Some w \<and>
         blit_cells (clip_b (Image_Bounds dst w) (Image_Bounds src w) dp sr)
                    (MinP (clip_sr (Image_Bounds src w) sr)) = []"
  using clip_b_Empty [OF assms] by (simp add: Blit_cells empty_cells)

theorem Blit_empty_noop_witness:
  "\<not> Box_Overlaps (Bx 0 0 0 2 2 2)
       \<lparr>MinP = Pt 100 100 100,
        MaxP = Point_Add (Box_Size (clip_sr (Bx 0 0 0 2 2 2) (Bx 0 0 0 2 2 2))) (Pt 100 100 100)\<rparr> \<and>
   Blit Paletted_dst Paletted_src (Pt 100 100 100) (Bx 0 0 0 2 2 2) (demo_dst, demo_src) =
     Some (demo_dst, demo_src) \<and>
   Blit (panicking (Bx 0 0 0 2 2 2)) (panicking (Bx 0 0 0 2 2 2)) (Pt 100 100 100)
     (Bx 0 0 0 2 2 2) () = Some ()"
proof -
  have far: "\<not> Box_Overlaps (Bx 0 0 0 2 2 2)
       \<lparr>MinP = Pt 100 100 100,
        MaxP = Point_Add (Box_Size (clip_sr (Bx 0 0 0 2 2 2) (Bx 0 0 0 2 2 2))) (Pt 100 100 100)\<rparr>"
    by (simp add: demo_clip_sr)
       (simp add: Box_Overlaps_def Bx_def Pt_def Point_Add_def Box_Size_def word_sless_alt)
  have pb: "Image_Bounds (panicking (Bx 0 0 0 2 2 2)) () = Bx 0 0 0 2 2 2"
    by (simp add: panicking_def)
  have h1: "Box_Empty (clip_sr (Image_Bounds Paletted_src (demo_dst, demo_src)) (Bx 0 0 0 2 2 2)) \<or>
     Box_Empty (clip_b (Image_Bounds Paletted_dst (demo_dst, demo_src))
       (Image_Bounds Paletted_src (demo_dst, demo_src)) (Pt 100 100 100) (Bx 0 0 0 2 2 2)) \<or>
     \<not> Box_Overlaps (Image_Bounds Paletted_dst (demo_dst, demo_src))
       \<lparr>MinP = Pt 100 100 100,
        MaxP = Point_Add (Box_Size (clip_sr (Image_Bounds Paletted_src (demo_dst, demo_src))
          (Bx 0 0 0 2 2 2))) (Pt 100 100 100)\<rparr>"
    using far by (simp add: demo_bounds)
  have h2: "Box_Empty (clip_sr (Image_Bounds (panicking (Bx 0 0 0 2 2 2)) ()) (Bx 0 0 0 2 2 2)) \<or>
     Box_Empty (clip_b (Image_Bounds (panicking (Bx 0 0 0 2 2 2)) ())
       (Image_Bounds (panicking (Bx 0 0 0 2 2 2)) ()) (Pt 100 100 100) (Bx 0 0 0 2 2 2)) \<or>
     \<not> Box_Overlaps (Image_Bounds (panicking (Bx 0 0 0 2 2 2)) ())
       \<lparr>MinP = Pt 100 100 100,
        MaxP = Point_Add (Box_Size (clip_sr (Image_Bounds (panicking (Bx 0 0 0 2 2 2)) ())
          (Bx 0 0 0 2 2 2))) (Pt 100 100 100)\<rparr>"
    using far by (simp add: pb)
  from Blit_empty_noop [OF h1] Blit_empty_noop [OF h2] far show ?thesis by simp
qed

section \<open>Properties of the paletted image\<close>

text \<open>
  C3 as stated fails: \<open>Paletted.Get\<close> takes the offset of its arguments as they are. In
  the mirrored image, \<open>Get(0, 0, 0)\<close> reads offset 0 where a read through the transformer
  reads offset 1, and the index that \<open>Set(0, 0, 0, 7)\<close> stores is not what \<open>Get(0, 0, 0)\<close>
  returns afterwards.
\<close>

theorem Get_ignores_Transformer_counterexample:
  "Paletted_Get mirror_img 0 0 0 = Some 10 \<and> Get_transformed mirror_img 0 0 0 = Some 20 \<and>
   Paletted_Set mirror_img 0 0 0 7 = Some (mirror_img\<lparr>Data := [10, 7]\<rparr>) \<and>
   Paletted_Get (mirror_img\<lparr>Data := [10, 7]\<rparr>) 0 0 0 = Some 10"
  by (simp add: Paletted_Get_def Get_transformed_def Paletted_Set_def mirror_img_def
      Paletted_Offset_def in_range_def Bx_def word_sle_eq word_sless_alt)

text \<open>
  C3, amended. \<open>Set(x, y, z, i)\<close> applies the transformer and stores \<open>i\<close> at
  \<open>Offset(T(x, y, z))\<close>, changing nothing else, and panics exactly when that offset is out
  of range. \<open>Get(x, y, z)\<close> applies no transformer: it returns the index at
  \<open>Offset(x, y, z)\<close> and panics exactly when that offset is out of range. So an index
  written at \<open>(x, y, z)\<close> is read back at \<open>T(x, y, z)\<close>, which is \<open>(x, y, z)\<close> under the
  default identity transformer.
\<close>

theorem Set_transforms_Get_does_not:
  "(Paletted_Set p x y z i = Some p' \<longrightarrow>
      in_range (transformed_Offset p x y z) (Data p) \<and>
      p' = p\<lparr>Data := (Data p)[unat (transformed_Offset p x y z) := i]\<rparr> \<and>
      Data p' ! unat (transformed_Offset p x y z) = i \<and>
      (case Transformer p x y z of (x', y', z') \<Rightarrow> Paletted_Get p' x' y' z' = Some i) \<and>
      (Transformer p = noTransform \<longrightarrow> Paletted_Get p' x y z = Some i)) \<and>
   (Paletted_Set p x y z i = None \<longleftrightarrow> \<not> in_range (transformed_Offset p x y z) (Data p)) \<and>
   (Paletted_Get p x y z = Some v \<longrightarrow>
      in_range (Paletted_Offset p x y z) (Data p) \<and>
      v = Data p ! unat (Paletted_Offset p x y z)) \<and>
   (Paletted_Get p x y z = None \<longleftrightarrow> \<not> in_range (Paletted_Offset p x y z) (Data p))"
  by (auto simp: Paletted_Set_def Paletted_Get_def transformed_Offset_def Let_def
      Paletted_Offset_def in_range_def noTransform_def split: prod.splits if_splits)

theorem Set_transforms_Get_does_not_witness:
  "Paletted_Set mirror_img 0 0 0 7 = Some (mirror_img\<lparr>Data := [10, 7]\<rparr>) \<and>
   transformed_Offset mirror_img 0 0 0 = 1 \<and>
   Paletted_Get (mirror_img\<lparr>Data := [10, 7]\<rparr>) 1 0 0 = Some 7 \<and>
   Paletted_Get mirror_img 0 0 0 = Some 10 \<and>
   Paletted_Offset mirror_img 0 0 0 = 0 \<and>
   Paletted_Set demo_dst 1 1 1 9 = Some (demo_dst\<lparr>Data := [0, 0, 0, 0, 0, 0, 0, 9]\<rparr>) \<and>
   Paletted_Get (demo_dst\<lparr>Data := [0, 0, 0, 0, 0, 0, 0, 9]\<rparr>) 1 1 1 = Some 9"
proof -
  have s1: "Paletted_Set mirror_img 0 0 0 7 = Some (mirror_img\<lparr>Data := [10, 7]\<rparr>)"
    by (simp add: Paletted_Set_def mirror_img_def Paletted_Offset_def in_range_def Bx_def
        word_sle_eq word_sless_alt)
  have g1: "Paletted_Get mirror_img 0 0 0 = Some 10"
    by (simp add: Paletted_Get_def mirror_img_def Paletted_Offset_def in_range_def Bx_def
        word_sle_eq word_sless_alt)
  have s2: "Paletted_Set demo_dst 1 1 1 9 = Some (demo_dst\<lparr>Data := [0, 0, 0, 0, 0, 0, 0, 9]\<rparr>)"
    by (simp add: Paletted_Set_def demo_dst_def Paletted_Offset_def in_range_def Bx_def
        noTransform_def word_sle_eq word_sless_alt)
  have t2: "Transformer demo_dst = noTransform" by (simp add: demo_dst_def)
  have o1: "transformed_Offset mirror_img 0 0 0 = 1" "Paletted_Offset mirror_img 0 0 0 = 0"
    by (simp_all add: transformed_Offset_def mirror_img_def Paletted_Offset_def Bx_def
        word_sless_alt)
  have tm: "Transformer mirror_img 0 0 0 = (1, 0, 0)" by (simp add: mirror_img_def)
  note A = Set_transforms_Get_does_not
    [of mirror_img 0 0 0 7 "mirror_img\<lparr>Data := [10, 7]\<rparr>" 10]
  note B = Set_transforms_Get_does_not
    [of demo_dst 1 1 1 9 "demo_dst\<lparr>Data := [0, 0, 0, 0, 0, 0, 0, 9]\<rparr>" 0]
  note A1 = A [THEN conjunct1, THEN mp, OF s1]
  note B1 = B [THEN conjunct1, THEN mp, OF s2]
  have g2: "Paletted_Get (mirror_img\<lparr>Data := [10, 7]\<rparr>) 1 0 0 = Some 7"
    using A1 [THEN conjunct2, THEN conjunct2, THEN conjunct2, THEN conjunct1]
    by (simp only: tm prod.case)
  have g3: "Paletted_Get (demo_dst\<lparr>Data := [0, 0, 0, 0, 0, 0, 0, 9]\<rparr>) 1 1 1 = Some 9"
    using B1 [THEN conjunct2, THEN conjunct2, THEN conjunct2, THEN conjunct2, THEN mp, OF t2]
    by this
  show ?thesis
    by (intro conjI) (rule s1 o1 g2 g1 s2 g3)+
qed

section \<open>Properties of the decoder\<close>

text \<open>
  C1. The \<open>RGBA\<close> branch reads 256 entries of four bytes, 1024 bytes of payload, but adds
  \<open>16 * 256 = 4096\<close> to \<open>numBytes\<close>, not 1024. Evaluated on an \<open>RGBA\<close> chunk of 12 + 1024
  bytes: the pass through the loop body consumes exactly the chunk and leaves
  \<open>numBytes = 12 + 4096\<close>. With \<open>childrenSize = 1084\<close> the loop then stops, and the chunks
  that follow the palette are never read: the sink receives \<open>SetPalette\<close> and, if the
  \<open>SIZE\<close> chunk came first, \<open>SetBounds\<close>, but no voxel.
\<close>

theorem RGBA_chunk_counted_as_4096:
  "length (rgba_chunk some_table) = 12 + 1024 \<and>
   child_chunk call_log \<lparr>numBytes = 0, hasPalette = False,
      reader = rgba_chunk some_table @ size_chunk 2 2 2 @ two_voxels, sink = []\<rparr> =
     Inr \<lparr>numBytes = 12 + 4096, hasPalette = True, reader = size_chunk 2 2 2 @ two_voxels,
          sink = [Call_SetPalette some_table]\<rparr> \<and>
   Decode (stream_RGBA_SIZE_XYZI some_table) call_log [] =
     Some (Return None [Call_SetPalette some_table]) \<and>
   Decode (stream_SIZE_RGBA_XYZI some_table) call_log [] =
     Some (Return None [Call_SetBounds (Bx 0 0 0 2 2 2), Call_SetPalette some_table])"
proof -
  have a: "length (rgba_chunk some_table) = 12 + 1024"
    by (simp add: length_rgba_chunk length_some_table)
  have b: "child_chunk call_log \<lparr>numBytes = 0, hasPalette = False,
      reader = rgba_chunk some_table @ size_chunk 2 2 2 @ two_voxels, sink = []\<rparr> =
     Inr \<lparr>numBytes = 12 + 4096, hasPalette = True, reader = size_chunk 2 2 2 @ two_voxels,
          sink = [Call_SetPalette some_table]\<rparr>"
    by (subst child_chunk_rgba [OF length_some_table]) (simp add: call_log_def)
  have c: "Decode (stream_RGBA_SIZE_XYZI some_table) call_log [] =
     Some (Return None [Call_SetPalette some_table])"
    using Decode_of_children [OF palette_first_children]
    unfolding stream_RGBA_SIZE_XYZI_def by (simp add: finish_def)
  have d: "Decode (stream_SIZE_RGBA_XYZI some_table) call_log [] =
     Some (Return None [Call_SetBounds (Bx 0 0 0 2 2 2), Call_SetPalette some_table])"
    using Decode_of_children [OF palette_second_children]
    unfolding stream_SIZE_RGBA_XYZI_def by (simp add: finish_def)
  from a b c d show ?thesis by blast
qed

theorem RGBA_chunk_counted_as_4096_witness:
  "Decode (stream_RGBA_SIZE_XYZI some_table) call_log [] =
     Some (Return None [Call_SetPalette some_table])"
  using RGBA_chunk_counted_as_4096 by blast

text \<open>
  C2 as stated fails for an order in which the voxels come before the bounds. On the
  image that \<open>NewPaletted\<close> makes of the empty box, \<open>Set\<close> panics on the first voxel. On an
  image that already has the bounds 2 x 2 x 2, \<open>Decode\<close> succeeds, but the \<open>SetBounds\<close> of the
  later \<open>SIZE\<close> chunk allocates a fresh buffer and \<open>Get(0, 0, 0)\<close> is 0, not 5.
\<close>

theorem roundtrip_any_order_counterexample:
  "length some_table = 256 \<and>
   length (stream_XYZI_SIZE_RGBA some_table) = 8 + 12 + 1084 \<and>
   NewPaletted [] ZB = Some empty_img \<and>
   Decode (stream_XYZI_SIZE_RGBA some_table) Paletted_sink empty_img = Some Panicked \<and>
   Decode (stream_XYZI_SIZE_RGBA some_table) Paletted_sink demo_dst =
     Some (Return None (demo_dst\<lparr>Palette := some_table\<rparr>)) \<and>
   Paletted_Get (demo_dst\<lparr>Palette := some_table\<rparr>) 0 0 0 = Some 0"
proof -
  have "Paletted_Get (demo_dst\<lparr>Palette := some_table\<rparr>) 0 0 0 = Some 0"
    by (simp add: Paletted_Get_def Paletted_Offset_def in_range_def demo_dst_def Bx_def
        word_sle_eq word_sless_alt)
  moreover have "length (stream_XYZI_SIZE_RGBA some_table) = 8 + 12 + 1084"
    by (simp add: stream_XYZI_SIZE_RGBA_def vox_stream_def file_header_def size_chunk_def
        two_voxels_def xyzi_chunk_def length_rgba_chunk length_some_table)
  ultimately show ?thesis
    using length_some_table NewPaletted_ZB voxels_first_panics voxels_first_wiped by blast
qed

text \<open>
  C2, amended to the order \<open>SIZE\<close>, \<open>XYZI\<close>, \<open>RGBA\<close>. For every table of 256 entries and
  every \<open>Paletted\<close> sink with the identity transformer, the stream has 1084 bytes of
  children, as its \<open>MAIN\<close> header says, and \<open>Decode\<close> returns \<open>nil\<close> and leaves
  the sink with bounds \<open>Bx(0,0,0,2,2,2)\<close>, the given table as palette,
  \<open>Get(0,0,0) = 5\<close>, \<open>Get(1,1,1) = 9\<close> and 0 in every other cell of the bounds.
\<close>

theorem Decode_roundtrip_SIZE_XYZI_RGBA:
  assumes "length table = 256" and "Transformer p = noTransform"
  shows "\<exists>result.
     length (stream_SIZE_XYZI_RGBA table) = 8 + 12 + 1084 \<and>
     Decode (stream_SIZE_XYZI_RGBA table) Paletted_sink p = Some (Return None result) \<and>
     result = p\<lparr>bounds := Bx 0 0 0 2 2 2, Data := [5, 0, 0, 0, 0, 0, 0, 9], Palette := table\<rparr> \<and>
     Paletted_Bounds result = Bx 0 0 0 2 2 2 \<and>
     Palette result = table \<and>
     Paletted_Get result 0 0 0 = Some 5 \<and>
     Paletted_Get result 1 1 1 = Some 9 \<and>
     (\<forall>x y z. Point_In (Pt x y z) (Paletted_Bounds result) \<longrightarrow>
        (x, y, z) \<noteq> (0, 0, 0) \<longrightarrow> (x, y, z) \<noteq> (1, 1, 1) \<longrightarrow>
        Paletted_Get result x y z = Some 0)"
proof -
  let ?res = "p\<lparr>bounds := Bx 0 0 0 2 2 2, Data := [5, 0, 0, 0, 0, 0, 0, 9], Palette := table\<rparr>"
  have dec: "Decode (stream_SIZE_XYZI_RGBA table) Paletted_sink p = Some (Return None ?res)"
    unfolding stream_SIZE_XYZI_RGBA_def
    by (subst Decode_of_children [OF roundtrip_children [OF assms]]) (simp add: finish_def)
  have b: "bounds ?res = Bx 0 0 0 2 2 2" and d: "Data ?res = [5, 0, 0, 0, 0, 0, 0, 9]"
    by simp_all
  note g = Get_decoded [OF b d]
  have others: "\<forall>x y z. Point_In (Pt x y z) (Paletted_Bounds ?res) \<longrightarrow>
        (x, y, z) \<noteq> (0, 0, 0) \<longrightarrow> (x, y, z) \<noteq> (1, 1, 1) \<longrightarrow>
        Paletted_Get ?res x y z = Some 0"
  proof (intro allI impI)
    fix x y z
    assume "Point_In (Pt x y z) (Paletted_Bounds ?res)"
      and "(x, y, z) \<noteq> (0, 0, 0)" and "(x, y, z) \<noteq> (1, 1, 1)"
    with in_bounds_222 [of x y z] g show "Paletted_Get ?res x y z = Some 0"
      by (auto simp: Paletted_Bounds_def)
  qed
  have len: "length (stream_SIZE_XYZI_RGBA table) = 8 + 12 + 1084"
    by (simp add: stream_SIZE_XYZI_RGBA_def vox_stream_def file_header_def size_chunk_def
        two_voxels_def xyzi_chunk_def length_rgba_chunk assms(1))
  from len dec g(1) g(8) others show ?thesis
    by (simp add: Paletted_Bounds_def)
qed

theorem Decode_roundtrip_SIZE_XYZI_RGBA_witness:
  "length some_table = 256 \<and> Transformer empty_img = noTransform \<and>
   Decode (stream_SIZE_XYZI_RGBA some_table) Paletted_sink empty_img =
     Some (Return None (empty_img\<lparr>bounds := Bx 0 0 0 2 2 2,
       Data := [5, 0, 0, 0, 0, 0, 0, 9], Palette := some_table\<rparr>)) \<and>
   Paletted_Get (empty_img\<lparr>bounds := Bx 0 0 0 2 2 2,
       Data := [5, 0, 0, 0, 0, 0, 0, 9], Palette := some_table\<rparr>) 1 1 1 = Some 9"
proof -
  have t: "Transformer empty_img = noTransform" by (simp add: empty_img_def)
  from Decode_roundtrip_SIZE_XYZI_RGBA [OF length_some_table t] length_some_table t
  show ?thesis by auto
qed

text \<open>
  C6. When fewer than 8 bytes can be read, or the first four bytes are not the magic tag,
  \<open>Decode\<close> returns the error \<open>invalid file\<close>: with the inner error \<open>EOF\<close> on an empty
  stream, with \<open>ErrUnexpectedEOF\<close> on 1 to 7 bytes, and \<open>ErrInvalidFile\<close> itself on a wrong
  tag. The sink is in the state it was given, whatever its methods are (also when each of
  them would panic), so none was called.
\<close>

theorem Decode_rejects_bad_header:
  "length r < 8 \<or> go_string (take 4 r) \<noteq> voxMagic \<Longrightarrow>
   Decode r img s =
     Some (Return (Some (if r = [] then Error_with ErrInvalidFile EOF
                         else if length r < 8 then Error_with ErrInvalidFile ErrUnexpectedEOF
                         else ErrInvalidFile)) s)"
  by (auto simp: Decode_def decode_chunks_def binary_Read_def)

theorem Decode_rejects_bad_header_witness:
  "go_string (take 4 bad_magic_stream) \<noteq> voxMagic \<and>
   Decode bad_magic_stream call_log [] = Some (Return (Some ErrInvalidFile) []) \<and>
   Decode bad_magic_stream panicking_sink () = Some (Return (Some ErrInvalidFile) ()) \<and>
   Decode [86, 79, 88] call_log [] =
     Some (Return (Some (Error ''invalid file'' (Some ErrUnexpectedEOF))) [])"
proof -
  have m: "go_string (take 4 bad_magic_stream) \<noteq> voxMagic"
    by (simp add: bad_magic_stream_def go_string_go_bytes voxMagic_def)
  have l: "\<not> length bad_magic_stream < 8" "bad_magic_stream \<noteq> []"
    by (simp_all add: bad_magic_stream_def go_bytes_def)
  have e: "Error_with ErrInvalidFile ErrUnexpectedEOF = Error ''invalid file'' (Some ErrUnexpectedEOF)"
    by (simp add: ErrInvalidFile_def)
  from Decode_rejects_bad_header [of bad_magic_stream call_log "[]"]
    Decode_rejects_bad_header [of bad_magic_stream panicking_sink "()"]
    Decode_rejects_bad_header [of "[86, 79, 88]" call_log "[]"] m l e
  show ?thesis by simp
qed




text \<open>
  C10. On every finite stream \<open>Decode\<close> returns or panics, for every sink and sink state:
  it does not run forever. The loop ends for every \<open>childrenSize\<close> and every state it is
  entered in, with an error, a panic, or \<open>numBytes \<ge> childrenSize\<close>; and every pass
  through its body either ends the call or leaves a reader at least 12 bytes shorter.
\<close>

theorem Decode_terminates:
  "(\<exists>out. Decode r img s = Some out) \<and>
   (\<forall>c st. \<exists>res. children img c st = Some res \<and>
      (case res of Inl out \<Rightarrow> True | Inr st' \<Rightarrow> \<not> numBytes st' < c)) \<and>
   (\<forall>st. (\<exists>out. child_chunk img st = Inl out) \<or>
      (\<exists>st'. child_chunk img st = Inr st' \<and> length (reader st') + 12 \<le> length (reader st)))"
proof -
  have a: "\<exists>out. Decode r img s = Some out"
    using decode_chunks_returns [of r img s]
    by (auto simp: Decode_def split: sum.splits)
  have c: "\<forall>st. (\<exists>out. child_chunk img st = Inl out) \<or>
      (\<exists>st'. child_chunk img st = Inr st' \<and> length (reader st') + 12 \<le> length (reader st))"
  proof
    fix st
    show "(\<exists>out. child_chunk img st = Inl out) \<or>
      (\<exists>st'. child_chunk img st = Inr st' \<and> length (reader st') + 12 \<le> length (reader st))"
      by (cases "child_chunk img st") (auto dest: child_chunk_consumes)
  qed
  from a children_returns c show ?thesis by blast
qed

lemma cut_children:
  "children call_log 1000 \<lparr>numBytes = 0, hasPalette = False,
      reader = concat [size_chunk 2 2 2], sink = []\<rparr> =
   Some (Inl (Return (Some (Error ''invalid file'' (Some EOF)))
     [Call_SetBounds (Bx 0 0 0 2 2 2)]))"
proof -
  have c1: "child_chunk call_log \<lparr>numBytes = 0, hasPalette = False,
      reader = size_chunk 2 2 2 @ [], sink = []\<rparr> =
      Inr \<lparr>numBytes = 24, hasPalette = False, reader = [],
           sink = [Call_SetBounds (Bx 0 0 0 2 2 2)]\<rparr>"
    by (subst child_chunk_size) (simp add: call_log_simps)
  have c2: "child_chunk call_log \<lparr>numBytes = 24, hasPalette = False, reader = [],
           sink = [Call_SetBounds (Bx 0 0 0 2 2 2)]\<rparr> =
      Inl (Return (Some (Error ''invalid file'' (Some EOF))) [Call_SetBounds (Bx 0 0 0 2 2 2)])"
    by (simp add: child_chunk_def read_chunkHeader_def binary_Read_def ErrInvalidFile_def)
  show ?thesis
    apply (simp only: concat.simps)
    apply (subst children_step [OF _ c1], simp)
    apply (subst children_abort [OF _ c2], simp)
    apply simp
    done
qed

theorem Decode_terminates_witness:
  "Decode cut_stream call_log [] =
     Some (Return (Some (Error ''invalid file'' (Some EOF))) [Call_SetBounds (Bx 0 0 0 2 2 2)])"
proof -
  from Decode_terminates [of cut_stream call_log "[]"]
  obtain out where "Decode cut_stream call_log [] = Some out" by blast
  moreover have "decode_chunks cut_stream call_log [] =
     Some (Inl (Return (Some (Error ''invalid file'' (Some EOF)))
       [Call_SetBounds (Bx 0 0 0 2 2 2)]))"
    unfolding cut_stream_def decode_chunks_stream by (rule cut_children)
  ultimately show ?thesis by (simp add: Decode_def)
qed

end
